theory Spec2Isabelle
  imports Complex_Main "HOL-Library.AList" "HOL-Library.Monad_Syntax"
begin

section \<open>JavaScript strings and values\<close>

text \<open>
  A JavaScript string is modelled as an Isabelle \<open>string\<close>: a list of code units, here the
  code units below 256. The white space of \<open>\s\<close> and of \<open>String.prototype.trim\<close> in that
  range is TAB, LF, VT, FF, CR, SPACE and NBSP; the word characters of \<open>\w\<close> are the ASCII
  letters, the digits and the underscore.
\<close>

definition is_space :: "char \<Rightarrow> bool" where
  "is_space c = (of_char c \<in> {9::nat, 10, 11, 12, 13, 32, 160})"

definition is_word :: "char \<Rightarrow> bool" where
  "is_word c =
     (let n = (of_char c :: nat)
      in (65 \<le> n \<and> n \<le> 90) \<or> (97 \<le> n \<and> n \<le> 122) \<or> (48 \<le> n \<and> n \<le> 57) \<or> n = 95)"

text \<open>\<open>s.trim()\<close>: white space removed at both ends.\<close>

definition trim :: "string \<Rightarrow> string" where
  "trim s = rev (dropWhile is_space (rev (dropWhile is_space s)))"

text \<open>\<open>s.startsWith(sub)\<close> and \<open>s.includes(sub)\<close>.\<close>

definition startsWith :: "string \<Rightarrow> string \<Rightarrow> bool" where
  "startsWith s sub = (take (length sub) s = sub)"

fun includes_str :: "string \<Rightarrow> string \<Rightarrow> bool" where
  "includes_str [] sub = (sub = [])"
| "includes_str (c # cs) sub = (startsWith (c # cs) sub \<or> includes_str cs sub)"

text \<open>
  \<open>a || b\<close> where \<open>a\<close> is a string that may be undefined (the empty string is falsy), and
  where \<open>a\<close> is a number that may be undefined (zero is falsy).
\<close>

definition or_str :: "string option \<Rightarrow> string \<Rightarrow> string" where
  "or_str a b = (case a of None \<Rightarrow> b | Some s \<Rightarrow> if s = [] then b else s)"

definition or_num :: "'a::zero option \<Rightarrow> 'a \<Rightarrow> 'a" where
  "or_num a b = (case a of None \<Rightarrow> b | Some n \<Rightarrow> if n = 0 then b else n)"

text \<open>
  The values a JavaScript variable of type \<open>any\<close> can hold, as far as the reducer's import
  path inspects them. \<open>JSON.parse\<close> returns null, booleans, numbers, strings, arrays and
  plain objects only (\<open>is_json\<close>); a \<open>Set\<close> instance is a value of its own.
\<close>

datatype jsvalue =
    VNull
  | VBool bool
  | VNumber rat
  | VString string
  | VArray "jsvalue list"
  | VObject "(string \<times> jsvalue) list"
  | VSet "jsvalue list"

fun is_json :: "jsvalue \<Rightarrow> bool" where
  "is_json VNull = True"
| "is_json (VBool b) = True"
| "is_json (VNumber n) = True"
| "is_json (VString s) = True"
| "is_json (VArray vs) = list_all is_json vs"
| "is_json (VObject kvs) = list_all (\<lambda>kv. is_json (snd kv)) kvs"
| "is_json (VSet vs) = False"

text \<open>\<open>typeof v\<close>, with \<open>None\<close> for undefined.\<close>

fun typeof :: "jsvalue option \<Rightarrow> string" where
  "typeof None = ''undefined''"
| "typeof (Some VNull) = ''object''"
| "typeof (Some (VBool b)) = ''boolean''"
| "typeof (Some (VNumber n)) = ''number''"
| "typeof (Some (VString s)) = ''string''"
| "typeof (Some (VArray vs)) = ''object''"
| "typeof (Some (VObject kvs)) = ''object''"
| "typeof (Some (VSet vs)) = ''object''"

text \<open>
  \<open>v.k\<close> for the keys the reducer reads (\<open>id\<close>, \<open>messages\<close>, \<open>metadata\<close>,
  \<open>activeProviders\<close>, none of them a property of a prototype): the own property of a plain
  object, undefined on every other value that is not null.
\<close>

fun get_prop :: "jsvalue \<Rightarrow> string \<Rightarrow> jsvalue option" where
  "get_prop (VObject kvs) k = map_of kvs k"
| "get_prop v k = None"

fun isArray :: "jsvalue option \<Rightarrow> bool" where
  "isArray (Some (VArray vs)) = True"
| "isArray v = False"

fun instanceof_Set :: "jsvalue option \<Rightarrow> bool" where
  "instanceof_Set (Some (VSet vs)) = True"
| "instanceof_Set v = False"

section \<open>Error taxonomy\<close>

text \<open>
  Modelled from the spec: the error classes of the library (AuthenticationError,
  RateLimitError, InvalidRequestError and the three conversation errors), which are
  declared outside the sources; the taxonomy of the specification names them, and the
  adapters and the reducer give the arguments they are built from. With them, everything
  else the modelled code throws or catches. \<open>Error name message\<close> is an instance of
  \<open>Error\<close> that is not one of the classes below (\<open>new Error(m)\<close> is \<open>Error ''Error'' m\<close>, a
  failed property read \<open>Error ''TypeError'' m\<close>); \<open>APIError status message\<close> is the API error
  class of the backend's SDK, carrying an HTTP status when there is one; \<open>Thrown s\<close> is a
  thrown primitive value (a string, a number or a boolean, which has no \<open>message\<close> and no
  \<open>status\<close>), with its string conversion \<open>s\<close>; \<open>ThrownNull\<close> and \<open>ThrownUndefined\<close> are a
  thrown \<open>null\<close> and a thrown \<open>undefined\<close>, on which every property read throws a
  \<open>TypeError\<close>. The provider errors carry their message and the provider's name.
\<close>

datatype js_error =
    Error string string
  | APIError "nat option" string
  | Thrown string
  | ThrownNull
  | ThrownUndefined
  | AuthenticationError string string
  | RateLimitError string string
  | InvalidRequestError string string
  | ConversationError string
  | ConversationNotFoundError string
  | InvalidConversationOperationError string

fun instanceof_Error :: "js_error \<Rightarrow> bool" where
  "instanceof_Error (Thrown s) = False"
| "instanceof_Error ThrownNull = False"
| "instanceof_Error ThrownUndefined = False"
| "instanceof_Error e = True"

text \<open>The thrown values on which a property read throws.\<close>

fun nullish :: "js_error \<Rightarrow> bool" where
  "nullish ThrownNull = True"
| "nullish ThrownUndefined = True"
| "nullish e = False"

text \<open>
  \<open>error.message\<close>, of a value that is not null or undefined: where the code reads the
  property of whatever it caught, the model asks \<open>nullish\<close> first. A primitive has no
  \<open>message\<close>, and a template prints that as \<open>undefined\<close>. The messages of the conversation
  errors are built by classes that are not among the sources; the reducer passes them the
  text kept here.
\<close>

fun message :: "js_error \<Rightarrow> string" where
  "message (Error n m) = m"
| "message (APIError st m) = m"
| "message (Thrown s) = ''undefined''"
| "message (AuthenticationError m p) = m"
| "message (RateLimitError m p) = m"
| "message (InvalidRequestError m p) = m"
| "message (ConversationError m) = m"
| "message (ConversationNotFoundError i) = i"
| "message (InvalidConversationOperationError m) = m"

text \<open>
  \<open>`${error}`\<close>: the string conversion of a primitive, of null and of undefined, and
  \<open>Error.prototype.toString\<close>, which gives \<open>name: message\<close>. The \<open>name\<close> of the
  library's own error classes is set where they are declared, outside the sources; the
  model takes the inherited \<open>Error\<close>.
\<close>

fun error_name :: "js_error \<Rightarrow> string" where
  "error_name (Error n m) = n"
| "error_name (APIError st m) = ''Error''"
| "error_name (AuthenticationError m p) = ''Error''"
| "error_name (RateLimitError m p) = ''Error''"
| "error_name (InvalidRequestError m p) = ''Error''"
| "error_name (ConversationError m) = ''Error''"
| "error_name (ConversationNotFoundError i) = ''Error''"
| "error_name (InvalidConversationOperationError m) = ''Error''"

fun to_string :: "js_error \<Rightarrow> string" where
  "to_string (Thrown s) = s"
| "to_string ThrownNull = ''null''"
| "to_string ThrownUndefined = ''undefined''"
| "to_string e = (if message e = [] then error_name e else error_name e @ '': '' @ message e)"

text \<open>\<open>error.status\<close>, of a value that is not null or undefined.\<close>

fun status :: "js_error \<Rightarrow> nat option" where
  "status (APIError st m) = st"
| "status (Error n m) = None"
| "status (Thrown s) = None"
| "status (AuthenticationError m p) = None"
| "status (RateLimitError m p) = None"
| "status (InvalidRequestError m p) = None"
| "status (ConversationError m) = None"
| "status (ConversationNotFoundError i) = None"
| "status (InvalidConversationOperationError m) = None"

text \<open>The three kinds an adapter may let through, and the provider name each carries.\<close>

fun normalized :: "js_error \<Rightarrow> bool" where
  "normalized (AuthenticationError m p) = True"
| "normalized (RateLimitError m p) = True"
| "normalized (InvalidRequestError m p) = True"
| "normalized e = False"

fun provider_of :: "js_error \<Rightarrow> string option" where
  "provider_of (AuthenticationError m p) = Some p"
| "provider_of (RateLimitError m p) = Some p"
| "provider_of (InvalidRequestError m p) = Some p"
| "provider_of e = None"

text \<open>
  \<open>xs.map(f)\<close> where \<open>f\<close> may throw: the first exception ends the map.
\<close>

fun map_try :: "('a \<Rightarrow> 'e + 'b) \<Rightarrow> 'a list \<Rightarrow> 'e + 'b list" where
  "map_try f [] = Inr []"
| "map_try f (x # xs) =
     (case f x of
        Inl e \<Rightarrow> Inl e
      | Inr y \<Rightarrow> (case map_try f xs of Inl e \<Rightarrow> Inl e | Inr ys \<Rightarrow> Inr (y # ys)))"

text \<open>\<open>xs.join(sep)\<close> on strings.\<close>

fun join :: "string \<Rightarrow> string list \<Rightarrow> string" where
  "join sep [] = []"
| "join sep [x] = x"
| "join sep (x # y # ys) = x @ sep @ join sep (y # ys)"

text \<open>The decimal digits of a number, as \<open>`${n}`\<close> prints them.\<close>

fun dec :: "nat \<Rightarrow> string" where
  "dec n = (if n < 10 then [char_of (48 + n)] else dec (n div 10) @ [char_of (48 + n mod 10)])"

declare dec.simps [simp del]

section \<open>Chat messages, options and responses\<close>

text \<open>
  Modelled from the spec: the types of the chat contract (messages, options, parameters,
  responses, stream chunks), which are declared outside the sources; the fields are the
  ones the data model of the specification lists and the adapters read and write. A content part is an object with a \<open>type\<close> and, as documented,
  a \<open>text\<close>; the OpenAI adapter reads \<open>data.text\<close> instead, so a part may also carry a
  \<open>data\<close> object. A message's content is one part or an array of parts.
\<close>

datatype role = System | User | Assistant

record content_data =
  data_text :: "string option"

record content_part =
  part_type :: string
  part_text :: "string option"
  part_data :: "content_data option"

datatype chat_content = Part content_part | Parts "content_part list"

record chat_message =
  role :: role
  content :: chat_content

record llm_options =
  o_model :: "string option"
  o_maxTokens :: "int option"
  o_temperature :: "rat option"
  o_topProbability :: "rat option"
  o_topKTokens :: "int option"
  o_systemMessage :: "string option"

record chat_params =
  p_messages :: "chat_message list"
  p_options :: llm_options

record usage =
  promptTokens :: int
  completionTokens :: int
  totalTokens :: int

record tool_call =
  tc_id :: string
  tc_name :: string
  tc_arguments :: string

text \<open>A field the adapter leaves out or sets to undefined or null is \<open>None\<close>.\<close>

record chat_completion_response =
  r_model :: string
  r_text :: string
  r_refusal :: "string option"
  r_toolCalls :: "tool_call list option"
  r_finishReason :: "string option"
  r_usage :: "usage option"
  r_outputVariables :: "(string \<rightharpoonup> string) option"

record stream_chunk =
  k_model :: string
  k_text :: "string option"
  k_toolCalls :: "tool_call list option"
  k_finishReason :: "string option"

text \<open>\<open>process.env\<close>.\<close>

type_synonym process_env = "string \<rightharpoonup> string"

text \<open>
  The message of the \<open>TypeError\<close> a property read on undefined or null throws (the text is
  the engine's; V8's is taken).
\<close>

definition cannot_read :: "string \<Rightarrow> string \<Rightarrow> js_error" where
  "cannot_read what prop =
     Error ''TypeError''
       (''Cannot read properties of '' @ what @ '' (reading '' @ [CHR 0x27] @ prop @ [CHR 0x27] @ '')'')"

section \<open>The OpenAI adapter\<close>

definition DEFAULT_MAX_TOKENS :: int where
  "DEFAULT_MAX_TOKENS = 1024 * 4"

definition DEFAULT_MODEL :: string where
  "DEFAULT_MODEL = ''gpt-4o-mini''"

text \<open>
  The constructor reads \<open>OPENAI_API_KEY\<close> and returns the key the client is built from, or
  throws.
\<close>

definition OpenAIProvider_constructor :: "process_env \<Rightarrow> js_error + string" where
  "OpenAIProvider_constructor env =
     (case env ''OPENAI_API_KEY'' of
        None \<Rightarrow> Inl (Error ''Error'' ''OpenAI API key not found in environment variables'')
      | Some apiKey \<Rightarrow>
          if apiKey = [] then Inl (Error ''Error'' ''OpenAI API key not found in environment variables'')
          else Inr apiKey)"

fun OpenAI_handleError :: "js_error \<Rightarrow> js_error" where
  "OpenAI_handleError (APIError st m) =
     (if st = Some 401 then AuthenticationError ''Authentication failed with OpenAI'' ''OpenAI''
      else if st = Some 429 then RateLimitError ''Rate limit exceeded for OpenAI'' ''OpenAI''
      else InvalidRequestError (''OpenAI request failed: '' @ m) ''OpenAI'')"
| "OpenAI_handleError e =
     (if instanceof_Error e
      then InvalidRequestError (''Unexpected error: '' @ message e) ''OpenAI''
      else InvalidRequestError (''Unknown error occurred: '' @ to_string e) ''OpenAI'')"

text \<open>
  The wire message of the OpenAI SDK. \<open>formatMessages\<close> reads \<open>message.content.data.text\<close>:
  where \<open>content.data\<close> is undefined (a part without \<open>data\<close>, or an array) the read throws a
  \<open>TypeError\<close>, and the \<open>map\<close> stops there.
\<close>

record wire_message =
  w_role :: role
  w_content :: string

fun content_data_of :: "chat_content \<Rightarrow> content_data option" where
  "content_data_of (Part p) = part_data p"
| "content_data_of (Parts ps) = None"

definition formatMessage :: "chat_message \<Rightarrow> js_error + wire_message" where
  "formatMessage m =
     (case content_data_of (content m) of
        None \<Rightarrow> Inl (cannot_read ''undefined'' ''text'')
      | Some d \<Rightarrow> Inr \<lparr>w_role = role m, w_content = or_str (data_text d) []\<rparr>)"

definition formatMessages :: "chat_message list \<Rightarrow> js_error + wire_message list" where
  "formatMessages messages = map_try formatMessage messages"

definition createSystemMessage :: "string \<Rightarrow> chat_message" where
  "createSystemMessage systemMessageText =
     \<lparr>role = System,
      content = Part \<lparr>part_type = ''text'', part_text = None,
                      part_data = Some \<lparr>data_text = Some systemMessageText\<rparr>\<rparr>\<rparr>"

definition withSystemMessage :: "llm_options \<Rightarrow> chat_message list \<Rightarrow> chat_message list" where
  "withSystemMessage options messages =
     (case o_systemMessage options of
        None \<Rightarrow> messages
      | Some s \<Rightarrow> if length s > 0 then createSystemMessage s # messages else messages)"

text \<open>
  The backend: \<open>client.chat.completions.create\<close>, from the request to what the SDK returns
  or throws.
\<close>

record openai_request =
  q_model :: string
  q_messages :: "wire_message list"
  q_max_tokens :: int
  q_temperature :: "rat option"
  q_top_p :: "rat option"

record openai_choice =
  ch_content :: "string option"
  ch_finish_reason :: "string option"

record openai_usage =
  prompt_tokens :: int
  completion_tokens :: int
  total_tokens :: int

record openai_response =
  choices :: "openai_choice list"
  resp_usage :: "openai_usage option"

type_synonym openai_backend = "openai_request \<Rightarrow> js_error + openai_response"

definition OpenAI_generateChatCompletion ::
  "openai_backend \<Rightarrow> chat_params \<Rightarrow> js_error + chat_completion_response" where
  "OpenAI_generateChatCompletion create params =
     (let messages = p_messages params; options = p_options params;
          messageWithSystem = withSystemMessage options messages
      in case formatMessages messageWithSystem of
           Inl e \<Rightarrow> Inl (OpenAI_handleError e)
         | Inr formattedMessages \<Rightarrow>
             (let model = or_str (o_model options) DEFAULT_MODEL
              in case create \<lparr>q_model = model, q_messages = formattedMessages,
                               q_max_tokens = or_num (o_maxTokens options) DEFAULT_MAX_TOKENS,
                               q_temperature = o_temperature options,
                               q_top_p = o_topProbability options\<rparr> of
                   Inl e \<Rightarrow> Inl (OpenAI_handleError e)
                 | Inr response \<Rightarrow>
                     (let firstResponse = (case choices response of [] \<Rightarrow> None | c # cs \<Rightarrow> Some c);
                          usage = resp_usage response
                      in Inr \<lparr>r_model = model,
                              r_text = or_str (Option.bind firstResponse ch_content) [],
                              r_refusal = None,
                              r_toolCalls = None,
                              r_finishReason = Option.bind firstResponse ch_finish_reason,
                              r_usage = Some
                                \<lparr>promptTokens = or_num (map_option prompt_tokens usage) 0,
                                 completionTokens = or_num (map_option completion_tokens usage) 0,
                                 totalTokens = or_num (map_option total_tokens usage) 0\<rparr>,
                              r_outputVariables = None\<rparr>)))"

section \<open>The Anthropic adapter's error handler\<close>

text \<open>
  The handler reads \<open>error.status\<close> of whatever was caught: on a thrown null or undefined
  the read throws a \<open>TypeError\<close>, which leaves the handler as it is.
\<close>

definition Anthropic_handleError :: "js_error \<Rightarrow> js_error" where
  "Anthropic_handleError e =
     (if nullish e then cannot_read (to_string e) ''status''
      else if status e = Some 401
      then AuthenticationError ''Authentication failed with Anthropic'' ''Anthropic''
      else if status e = Some 429
      then RateLimitError ''Rate limit exceeded for Anthropic'' ''Anthropic''
      else InvalidRequestError (''Anthropic request failed: '' @ message e) ''Anthropic'')"

section \<open>The Google adapter\<close>

text \<open>
  The catalogue \<open>ALL_GOOGLE_MODELS\<close> and \<open>DEFAULT_GOOGLE_MODEL\<close> are declared outside the
  sources: the constructor takes them as parameters. The catalogue is a partial function
  on model names, and \<open>model in availableModels\<close> asks for its domain (the properties an
  object inherits from its prototype are not counted). The provider keeps its key, the
  catalogue in use (the constructor's, until the asynchronous refresh replaces it) and the
  model of \<open>defaultOptions\<close>; \<open>defaultOptions.maxTokens\<close> is \<open>DEFAULT_MAX_TOKENS\<close>.
\<close>

record google_model_config =
  gm_name :: string
  gm_endpoint :: string

record google_provider =
  g_key :: "string option"
  availableModels :: "string \<rightharpoonup> google_model_config"
  defaultModel :: string

definition GoogleProvider_constructor ::
  "(string \<rightharpoonup> google_model_config) \<Rightarrow> string \<Rightarrow> process_env \<Rightarrow> string option
     \<Rightarrow> js_error + google_provider" where
  "GoogleProvider_constructor ALL_GOOGLE_MODELS DEFAULT_GOOGLE_MODEL env key =
     (let apiKey = (case key of Some k \<Rightarrow> Some k | None \<Rightarrow> env ''GOOGLE_API_KEY'')
      in case apiKey of
           None \<Rightarrow> Inl (AuthenticationError ''Google API key GOOGLE_API_KEY is required'' ''Google'')
         | Some k \<Rightarrow>
             if k = [] then Inl (AuthenticationError ''Google API key GOOGLE_API_KEY is required'' ''Google'')
             else Inr \<lparr>g_key = Some k, availableModels = ALL_GOOGLE_MODELS,
                       defaultModel = DEFAULT_GOOGLE_MODEL\<rparr>)"

definition getKey :: "google_provider \<Rightarrow> js_error + string" where
  "getKey p =
     (case g_key p of
        None \<Rightarrow> Inl (AuthenticationError ''Google API key is required'' ''Google'')
      | Some k \<Rightarrow>
          if k = [] then Inl (AuthenticationError ''Google API key is required'' ''Google'')
          else Inr k)"

text \<open>\<open>handleError\<close> returns what it throws.\<close>

definition Google_handleError :: "js_error \<Rightarrow> js_error" where
  "Google_handleError error =
     (if instanceof_Error error \<and> includes_str (message error) ''API key''
      then AuthenticationError (message error) ''Google''
      else if instanceof_Error error \<and>
              (includes_str (message error) ''quota'' \<or> includes_str (message error) ''rate limit'')
      then RateLimitError (message error) ''Google''
      else if instanceof_Error error \<and>
              (includes_str (message error) ''not supported'' \<or> includes_str (message error) ''invalid'')
      then InvalidRequestError (message error) ''Google''
      else Error ''Error'' (''Google provider error: '' @ to_string error))"

subsection \<open>Output variables\<close>

text \<open>
  \<open>find_first pat s\<close>: the text before and after the first occurrence of \<open>pat\<close> in \<open>s\<close>.
\<close>

fun find_first :: "string \<Rightarrow> string \<Rightarrow> (string \<times> string) option" where
  "find_first pat [] = (if pat = [] then Some ([], []) else None)"
| "find_first pat (c # cs) =
     (if startsWith (c # cs) pat then Some ([], drop (length pat) (c # cs))
      else map_option (\<lambda>(before, after). (c # before, after)) (find_first pat cs))"

text \<open>
  The pattern \<open><(\w+)>([\s\S]*?)<\/\1>\<close> applied at the start of \<open>s\<close>: the name, the value
  and the text after the match. The greedy \<open>\w+\<close> must be followed by \<open>>\<close>, so it takes the
  whole run of word characters; the lazy \<open>[\s\S]*?\<close> stops at the first closing tag of that
  name.
\<close>

definition match_at :: "string \<Rightarrow> (string \<times> string \<times> string) option" where
  "match_at s =
     (case s of
        [] \<Rightarrow> None
      | c # r \<Rightarrow>
          if c \<noteq> CHR ''<'' then None
          else if takeWhile is_word r = [] then None
          else (case dropWhile is_word r of
                  [] \<Rightarrow> None
                | d # r2 \<Rightarrow>
                    if d \<noteq> CHR ''>'' then None
                    else (case find_first (''</'' @ takeWhile is_word r @ ''>'') r2 of
                            None \<Rightarrow> None
                          | Some (v, rest) \<Rightarrow> Some (takeWhile is_word r, v, rest))))"

lemma find_first_length:
  "find_first pat s = Some (b, a) \<Longrightarrow> length a \<le> length s"
proof (induction s arbitrary: b)
  case Nil
  then show ?case by (simp split: if_splits)
next
  case (Cons c cs)
  then show ?case by (fastforce split: if_splits)
qed

lemma match_at_shorter:
  assumes "match_at s = Some (n, v, rest)"
  shows "length rest < length s"
proof -
  from assms obtain c r d r2 where
    s: "s = c # r" and r: "dropWhile is_word r = d # r2"
    and f: "find_first (''</'' @ takeWhile is_word r @ ''>'') r2 = Some (v, rest)"
    by (auto simp: match_at_def split: list.splits if_splits option.splits)
  have "length rest \<le> length r2" using f by (rule find_first_length)
  moreover have "length (dropWhile is_word r) \<le> length r" by (rule length_dropWhile_le)
  ultimately show ?thesis using s r by simp
qed

text \<open>
  The \<open>exec\<close> loop of the global pattern: the leftmost match from the current position,
  then on from its end; the names and values of the matches in order.
\<close>

function matches :: "string \<Rightarrow> (string \<times> string) list" where
  "matches [] = []"
| "matches (c # cs) =
     (case match_at (c # cs) of
        Some (n, v, rest) \<Rightarrow> (n, v) # matches rest
      | None \<Rightarrow> matches cs)"
  by pat_completeness auto
termination
proof (relation "measure length")
  show "wf (measure length)" by simp
next
  fix c cs x2 n y v rest
  assume "match_at (c # cs) = Some x2" "(n, y) = x2" "(v, rest) = y"
  then have "match_at (c # cs) = Some (n, v, rest)" by simp
  then show "(rest, c # cs) \<in> measure length"
    using match_at_shorter by fastforce
next
  fix c cs
  show "(cs, c # cs) \<in> measure length" by simp
qed

declare matches.simps [simp del]

text \<open>
  \<open>variables[name] = value\<close> on a plain object: the key \<open>__proto__\<close> is the prototype's
  accessor, which ignores a string, so no property is created for it.
\<close>

definition assign :: "(string \<rightharpoonup> string) \<Rightarrow> string \<Rightarrow> string \<Rightarrow> (string \<rightharpoonup> string)" where
  "assign obj k v = (if k = ''__proto__'' then obj else obj(k \<mapsto> v))"

definition extractOutputVariables :: "string \<Rightarrow> (string \<rightharpoonup> string)" where
  "extractOutputVariables txt =
     (let variables = foldl (\<lambda>vars (name, v). assign vars name (trim v)) Map.empty (matches txt)
      in if trim txt \<noteq> [] then variables(''qllm_response'' \<mapsto> trim txt) else variables)"

subsection \<open>Chat completion\<close>

text \<open>The first part of an array of parts, or the part itself.\<close>

fun first_part :: "chat_content \<Rightarrow> content_part option" where
  "first_part (Part p) = Some p"
| "first_part (Parts []) = None"
| "first_part (Parts (p # ps)) = Some p"

definition message_text :: "chat_message \<Rightarrow> js_error + string option" where
  "message_text msg =
     (case first_part (content msg) of
        None \<Rightarrow> Inl (cannot_read ''undefined'' ''type'')
      | Some c \<Rightarrow> Inr (if part_type c = ''text'' then part_text c else Some []))"

text \<open>\<open>join\<close> prints an undefined element as the empty string.\<close>

definition convertMessagesToPrompt :: "chat_message list \<Rightarrow> js_error + string" where
  "convertMessagesToPrompt messages =
     (case map_try message_text messages of
        Inl e \<Rightarrow> Inl e
      | Inr ts \<Rightarrow> Inr (join [CHR 0x0A, CHR 0x0A] (map (\<lambda>t. case t of None \<Rightarrow> [] | Some s \<Rightarrow> s) ts)))"

text \<open>
  The backend of the SDK: \<open>generateContent\<close> for a model and a prompt, to the text of the
  response or to what the SDK throws.
\<close>

type_synonym google_sdk = "string \<Rightarrow> string \<Rightarrow> js_error + string"

definition Google_generateChatCompletion ::
  "google_sdk \<Rightarrow> google_provider \<Rightarrow> chat_params \<Rightarrow> js_error + chat_completion_response" where
  "Google_generateChatCompletion generateContent p params =
     (let options = p_options params; messages = p_messages params;
          model = or_str (o_model options) (defaultModel p)
      in if availableModels p model = None
         then Inl (Google_handleError
                (InvalidRequestError (''Model '' @ model @ '' not supported by Google'') ''Google''))
         else case convertMessagesToPrompt messages of
                Inl e \<Rightarrow> Inl (Google_handleError e)
              | Inr prompt \<Rightarrow>
                  (case generateContent model prompt of
                     Inl e \<Rightarrow> Inl (Google_handleError e)
                   | Inr txt \<Rightarrow>
                       Inr \<lparr>r_model = model,
                            r_text = txt,
                            r_refusal = None,
                            r_toolCalls = Some [],
                            r_finishReason = None,
                            r_usage = None,
                            r_outputVariables =
                              (if txt \<noteq> [] then Some (extractOutputVariables txt) else None)\<rparr>))"

subsection \<open>Emulated streaming\<close>

text \<open>
  \<open>text.split(/(\s+)/)\<close>: the text cut at every maximal run of white space, the runs kept
  as elements of their own.
\<close>

function split_ws :: "string \<Rightarrow> string list" where
  "split_ws s =
     (if dropWhile (\<lambda>c. \<not> is_space c) s = [] then [takeWhile (\<lambda>c. \<not> is_space c) s]
      else takeWhile (\<lambda>c. \<not> is_space c) s
           # takeWhile is_space (dropWhile (\<lambda>c. \<not> is_space c) s)
           # split_ws (dropWhile is_space (dropWhile (\<lambda>c. \<not> is_space c) s)))"
  by pat_completeness auto
termination
proof (relation "measure length")
  show "wf (measure length)" by simp
next
  fix s :: string
  assume ne: "dropWhile (\<lambda>c. \<not> is_space c) s \<noteq> []"
  then obtain c r where r: "dropWhile (\<lambda>c. \<not> is_space c) s = c # r"
    by (cases "dropWhile (\<lambda>c. \<not> is_space c) s") auto
  then have "is_space c"
    using hd_dropWhile [of "\<lambda>c. \<not> is_space c" s] by simp
  then have "length (dropWhile is_space (c # r)) \<le> length r"
    by (simp add: length_dropWhile_le)
  moreover have "length (c # r) \<le> length s"
    using r length_dropWhile_le [of "\<lambda>c. \<not> is_space c" s] by simp
  ultimately show "(dropWhile is_space (dropWhile (\<lambda>c. \<not> is_space c) s), s) \<in> measure length"
    using r by simp
qed

declare split_ws.simps [simp del]

text \<open>
  The request the adapter posts. A message whose part has no \<open>text\<close> makes the filter's
  \<open>trim\<close> throw.
\<close>

record google_part =
  gp_role :: string
  gp_text :: "string option"

record generation_config =
  maxOutputTokens :: int
  temperature :: rat
  topP :: rat
  topK :: int

record google_request =
  contents :: "google_part list"
  generationConfig :: generation_config

definition to_google_part :: "chat_message \<Rightarrow> js_error + google_part" where
  "to_google_part msg =
     (case first_part (content msg) of
        None \<Rightarrow> Inl (cannot_read ''undefined'' ''type'')
      | Some c \<Rightarrow>
          Inr \<lparr>gp_role = (if role msg = User then ''user'' else ''model''),
               gp_text = (if part_type c = ''text'' then part_text c else Some [])\<rparr>)"

fun filter_nonblank :: "google_part list \<Rightarrow> js_error + google_part list" where
  "filter_nonblank [] = Inr []"
| "filter_nonblank (m # ms) =
     (case gp_text m of
        None \<Rightarrow> Inl (cannot_read ''undefined'' ''trim'')
      | Some t \<Rightarrow>
          (case filter_nonblank ms of
             Inl e \<Rightarrow> Inl e
           | Inr keep \<Rightarrow> Inr (if trim t \<noteq> [] then m # keep else keep)))"

definition google_contents :: "chat_message list \<Rightarrow> js_error + google_part list" where
  "google_contents messages =
     (case map_try to_google_part messages of
        Inl e \<Rightarrow> Inl e
      | Inr parts \<Rightarrow> filter_nonblank parts)"

text \<open>
  What \<open>fetch\<close> and the reading of the body come to: an exception (the request failed, or
  the body of a successful response is not JSON); a response that is not \<open>ok\<close>, with its
  status and \<open>JSON.stringify\<close> of its body (\<open>''null''\<close> when the body is not JSON); or the data
  of a successful response, of which the adapter reads the text and the finish reason of
  the first candidate.
\<close>

record google_data =
  cand_text :: "string option"
  cand_finishReason :: "string option"

datatype fetch_result =
    FetchThrows js_error
  | HttpNotOk nat string
  | HttpOk google_data

type_synonym google_fetch = "string \<Rightarrow> google_request \<Rightarrow> fetch_result"

text \<open>
  The chunks the generator yields, or the exception it ends with. Every \<open>throw\<close> of the
  source comes before the first \<open>yield\<close>, so a stream that fails yields nothing. The
  delay between two chunks is not modelled.
\<close>

definition word_chunk :: "string \<Rightarrow> string \<Rightarrow> stream_chunk" where
  "word_chunk model word =
     \<lparr>k_model = model, k_text = Some word, k_toolCalls = Some [], k_finishReason = None\<rparr>"

definition final_chunk :: "string \<Rightarrow> google_data \<Rightarrow> stream_chunk" where
  "final_chunk model d =
     \<lparr>k_model = model, k_text = Some [], k_toolCalls = Some [],
      k_finishReason = Some (or_str (cand_finishReason d) ''stop'')\<rparr>"

definition Google_streamChatCompletion ::
  "google_fetch \<Rightarrow> google_provider \<Rightarrow> chat_params \<Rightarrow> js_error + stream_chunk list" where
  "Google_streamChatCompletion fetch p params =
     (let options = p_options params; messages = p_messages params;
          model = or_str (o_model options) (defaultModel p)
      in case availableModels p model of
           None \<Rightarrow> Inl (Google_handleError
                     (InvalidRequestError (''Model '' @ model @ '' not supported by Google'') ''Google''))
         | Some config \<Rightarrow>
             (case getKey p of
                Inl e \<Rightarrow> Inl (Google_handleError e)
              | Inr apiKey \<Rightarrow>
                  (case google_contents messages of
                     Inl e \<Rightarrow> Inl (Google_handleError e)
                   | Inr cs \<Rightarrow>
                       (case fetch (gm_endpoint config @ ''?key='' @ apiKey)
                               \<lparr>contents = cs,
                                generationConfig =
                                  \<lparr>maxOutputTokens = or_num (o_maxTokens options) DEFAULT_MAX_TOKENS,
                                   temperature = or_num (o_temperature options) (7 / 10),
                                   topP = or_num (o_topProbability options) (8 / 10),
                                   topK = or_num (o_topKTokens options) 40\<rparr>\<rparr> of
                          FetchThrows e \<Rightarrow> Inl (Google_handleError e)
                        | HttpNotOk st details \<Rightarrow>
                            Inl (Google_handleError
                                  (Error ''Error''
                                     (''HTTP error! status: '' @ dec st @ '', details: '' @ details)))
                        | HttpOk d \<Rightarrow>
                            (case cand_text d of
                               None \<Rightarrow> Inl (Google_handleError
                                            (Error ''Error'' ''No text generated from the model''))
                             | Some txt \<Rightarrow>
                                 if txt = []
                                 then Inl (Google_handleError
                                            (Error ''Error'' ''No text generated from the model''))
                                 else Inr (map (word_chunk model) (split_ws txt)
                                           @ [final_chunk model d]))))))"


section \<open>The conversation reducer\<close>

text \<open>
  Modelled from the spec: the conversation types (conversation, message, metadata,
  creation options), which are declared outside the sources; the fields are the ones the
  data model of the specification lists and the reducer reads and writes. A
  \<open>Date\<close> is its time value, an integer; a \<open>Set\<close> of provider identifiers is a set of
  strings; the \<open>Map\<close> of conversations is a partial function on identifiers. A \<open>Partial\<close>
  type has every field optional.
\<close>

record conversation_metadata =
  createdAt :: int
  updatedAt :: int
  title :: string
  description :: string
  extension :: "string \<rightharpoonup> jsvalue"

record partial_metadata =
  pm_createdAt :: "int option"
  pm_updatedAt :: "int option"
  pm_title :: "string option"
  pm_description :: "string option"
  pm_extension :: "string \<rightharpoonup> jsvalue"

record conversation_message =
  m_id :: string
  m_role :: role
  m_content :: chat_content
  m_timestamp :: int
  m_providerId :: string
  m_options :: llm_options

text \<open>\<open>Omit<ConversationMessage, 'id'>\<close>.\<close>

record new_message =
  nm_role :: role
  nm_content :: chat_content
  nm_timestamp :: int
  nm_providerId :: string
  nm_options :: llm_options

record conversation =
  c_id :: string
  messages :: "conversation_message list"
  metadata :: conversation_metadata
  activeProviders :: "string set"

record create_options =
  co_initialMessage :: "string option"
  co_metadata :: "partial_metadata option"
  co_providerIds :: "string list option"

text \<open>\<open>Partial<Conversation>\<close>.\<close>

record conversation_updates =
  u_id :: "string option"
  u_messages :: "conversation_message list option"
  u_metadata :: "partial_metadata option"
  u_activeProviders :: "string set option"

datatype conversation_action =
    CREATE_CONVERSATION create_options
  | UPDATE_CONVERSATION string conversation_updates
  | DELETE_CONVERSATION string
  | ADD_MESSAGE string new_message
  | SET_METADATA string partial_metadata
  | ADD_PROVIDER string string
  | REMOVE_PROVIDER string string
  | CLEAR_HISTORY string
  | IMPORT_CONVERSATION string

type_synonym conversations = "string \<rightharpoonup> conversation"

text \<open>
  What one call of the reducer reads from outside its arguments: the results of its first
  and second call of \<open>uuidv4()\<close> and of \<open>new Date()\<close>, and \<open>JSON.parse\<close> (to the parsed value
  or to the \<open>SyntaxError\<close> it throws). \<open>as_Conversation\<close> is the cast \<open>as Conversation\<close> of the
  import path: TypeScript checks nothing there, and a record of the model cannot hold an
  arbitrary object, so how the stored object reads as a conversation is left open.
\<close>

record reducer_env =
  uuid1 :: string
  uuid2 :: string
  date1 :: int
  date2 :: int
  JSON_parse :: "string \<Rightarrow> js_error + jsvalue"
  as_Conversation :: "jsvalue \<Rightarrow> conversation"

text \<open>The object spread \<open>{...m, ...p}\<close> of a partial metadata over a metadata.\<close>

definition spread_metadata :: "conversation_metadata \<Rightarrow> partial_metadata \<Rightarrow> conversation_metadata" where
  "spread_metadata m p =
     \<lparr>createdAt = (case pm_createdAt p of None \<Rightarrow> createdAt m | Some d \<Rightarrow> d),
      updatedAt = (case pm_updatedAt p of None \<Rightarrow> updatedAt m | Some d \<Rightarrow> d),
      title = (case pm_title p of None \<Rightarrow> title m | Some t \<Rightarrow> t),
      description = (case pm_description p of None \<Rightarrow> description m | Some t \<Rightarrow> t),
      extension = extension m ++ pm_extension p\<rparr>"

text \<open>\<open>{...m, ...p}\<close> where \<open>p\<close> itself may be undefined.\<close>

definition spread_metadata_opt ::
  "conversation_metadata \<Rightarrow> partial_metadata option \<Rightarrow> conversation_metadata" where
  "spread_metadata_opt m p = (case p of None \<Rightarrow> m | Some q \<Rightarrow> spread_metadata m q)"

text \<open>
  \<open>isValidConversation\<close>: reading \<open>data.id\<close> of null throws; on every other value the
  conjunction decides.
\<close>

definition isValidConversation :: "jsvalue \<Rightarrow> js_error + bool" where
  "isValidConversation d =
     (if typeof (Some d) \<noteq> ''object'' then Inr False
      else if d = VNull then Inl (cannot_read ''null'' ''id'')
      else Inr (typeof (get_prop d ''id'') = ''string'' \<and>
                isArray (get_prop d ''messages'') \<and>
                typeof (get_prop d ''metadata'') = ''object'' \<and>
                instanceof_Set (get_prop d ''activeProviders'')))"

text \<open>
  The \<open>catch\<close> of the import: it reads \<open>error.message\<close> of whatever was caught, which throws
  a \<open>TypeError\<close> of its own on a thrown null or undefined.
\<close>

definition import_failed :: "js_error \<Rightarrow> js_error" where
  "import_failed e =
     (if nullish e then cannot_read (to_string e) ''message''
      else ConversationError (''Failed to import conversation: '' @ message e))"

text \<open>
  The reducer returns the new mapping or what it throws. The \<open>default\<close> branch of the
  \<open>switch\<close> has no action of the declared type to run on.
\<close>

fun conversationReducer ::
  "reducer_env \<Rightarrow> conversations \<Rightarrow> conversation_action \<Rightarrow> js_error + conversations" where
  "conversationReducer env state (CREATE_CONVERSATION payload) =
     (let cid = uuid1 env; now = date1 env;
          conversation =
            \<lparr>c_id = cid,
             messages = [],
             metadata = spread_metadata_opt
               \<lparr>createdAt = now, updatedAt = now,
                title = or_str (Option.bind (co_metadata payload) pm_title) (''Conversation '' @ cid),
                description = or_str (Option.bind (co_metadata payload) pm_description) [],
                extension = Map.empty\<rparr>
               (co_metadata payload),
             activeProviders = set (case co_providerIds payload of None \<Rightarrow> [] | Some ps \<Rightarrow> ps)\<rparr>;
          initial = or_str (co_initialMessage payload) []
      in Inr (state(cid \<mapsto>
           (if initial \<noteq> []
            then conversation\<lparr>messages :=
                   [\<lparr>m_id = uuid2 env, m_role = User,
                     m_content = Part \<lparr>part_type = ''text'', part_text = Some initial, part_data = None\<rparr>,
                     m_timestamp = now,
                     m_providerId =
                       or_str (case co_providerIds payload of
                                 None \<Rightarrow> None | Some [] \<Rightarrow> None | Some (p # ps) \<Rightarrow> Some p) [],
                     m_options = \<lparr>o_model = None, o_maxTokens = None, o_temperature = None,
                                  o_topProbability = None, o_topKTokens = None,
                                  o_systemMessage = None\<rparr>\<rparr>]\<rparr>
            else conversation))))"
| "conversationReducer env state (UPDATE_CONVERSATION cid updates) =
     (case state cid of
        None \<Rightarrow> Inl (ConversationNotFoundError cid)
      | Some conversation \<Rightarrow>
          Inr (state(cid \<mapsto>
            \<lparr>c_id = (case u_id updates of None \<Rightarrow> c_id conversation | Some i \<Rightarrow> i),
             messages = (case u_messages updates of None \<Rightarrow> messages conversation | Some ms \<Rightarrow> ms),
             metadata = (spread_metadata_opt (metadata conversation) (u_metadata updates))
                          \<lparr>updatedAt := date1 env\<rparr>,
             activeProviders =
               (case u_activeProviders updates of None \<Rightarrow> activeProviders conversation | Some ps \<Rightarrow> ps)\<rparr>)))"
| "conversationReducer env state (DELETE_CONVERSATION cid) =
     Inr (state(cid := None))"
| "conversationReducer env state (ADD_MESSAGE cid msg) =
     (case state cid of
        None \<Rightarrow> Inl (ConversationNotFoundError cid)
      | Some conversation \<Rightarrow>
          (let newMessage =
                 \<lparr>m_id = uuid1 env, m_role = nm_role msg, m_content = nm_content msg,
                  m_timestamp = date1 env, m_providerId = nm_providerId msg,
                  m_options = nm_options msg\<rparr>
           in Inr (state(cid \<mapsto> conversation
                 \<lparr>messages := messages conversation @ [newMessage],
                  activeProviders := insert (nm_providerId msg) (activeProviders conversation),
                  metadata := (metadata conversation)\<lparr>updatedAt := date2 env\<rparr>\<rparr>))))"
| "conversationReducer env state (SET_METADATA cid md) =
     (case state cid of
        None \<Rightarrow> Inl (ConversationNotFoundError cid)
      | Some conversation \<Rightarrow>
          Inr (state(cid \<mapsto> conversation
            \<lparr>metadata := (spread_metadata (metadata conversation) md)\<lparr>updatedAt := date1 env\<rparr>\<rparr>)))"
| "conversationReducer env state (ADD_PROVIDER cid providerId) =
     (case state cid of
        None \<Rightarrow> Inl (ConversationNotFoundError cid)
      | Some conversation \<Rightarrow>
          Inr (state(cid \<mapsto> conversation
            \<lparr>activeProviders := insert providerId (activeProviders conversation),
             metadata := (metadata conversation)\<lparr>updatedAt := date1 env\<rparr>\<rparr>)))"
| "conversationReducer env state (REMOVE_PROVIDER cid providerId) =
     (case state cid of
        None \<Rightarrow> Inl (ConversationNotFoundError cid)
      | Some conversation \<Rightarrow>
          if providerId \<notin> activeProviders conversation
          then Inl (InvalidConversationOperationError
                 (''Provider '' @ providerId @ '' is not active in conversation '' @ cid))
          else Inr (state(cid \<mapsto> conversation
                 \<lparr>activeProviders := activeProviders conversation - {providerId},
                  metadata := (metadata conversation)\<lparr>updatedAt := date1 env\<rparr>\<rparr>)))"
| "conversationReducer env state (CLEAR_HISTORY cid) =
     (case state cid of
        None \<Rightarrow> Inl (ConversationNotFoundError cid)
      | Some conversation \<Rightarrow>
          Inr (state(cid \<mapsto> conversation
            \<lparr>messages := [],
             metadata := (metadata conversation)\<lparr>updatedAt := date1 env\<rparr>\<rparr>)))"
| "conversationReducer env state (IMPORT_CONVERSATION payload) =
     (case JSON_parse env payload of
        Inl e \<Rightarrow> Inl (import_failed e)
      | Inr parsedData \<Rightarrow>
          (case isValidConversation parsedData of
             Inl e \<Rightarrow> Inl (import_failed e)
           | Inr valid \<Rightarrow>
               if \<not> valid
               then Inl (import_failed (Error ''Error'' ''Invalid conversation data structure''))
               else Inr (state(c_id (as_Conversation env parsedData) \<mapsto> as_Conversation env parsedData))))"

section \<open>Properties of the reducer's state\<close>

text \<open>
  A parser in the sense of \<open>JSON.parse\<close> returns JSON values only.
\<close>

definition json_parser :: "reducer_env \<Rightarrow> bool" where
  "json_parser env = (\<forall>s v. JSON_parse env s = Inr v \<longrightarrow> is_json v)"

text \<open>Every stored conversation was updated no earlier than it was created.\<close>

definition dates_ordered :: "conversations \<Rightarrow> bool" where
  "dates_ordered state =
     (\<forall>cid c. state cid = Some c \<longrightarrow> createdAt (metadata c) \<le> updatedAt (metadata c))"

text \<open>
  The clock of a call reads no earlier than the creation time of any stored conversation.
\<close>

definition clock_ok :: "reducer_env \<Rightarrow> conversations \<Rightarrow> bool" where
  "clock_ok env state =
     (\<forall>cid c. state cid = Some c \<longrightarrow>
        createdAt (metadata c) \<le> date1 env \<and> createdAt (metadata c) \<le> date2 env)"

text \<open>
  The payload of the action carries a creation time of its own (or, for a new conversation,
  an update time): the spread of the payload's metadata then overrides the reducer's.
\<close>

fun supplies_dates :: "conversation_action \<Rightarrow> bool" where
  "supplies_dates (CREATE_CONVERSATION payload) =
     (case co_metadata payload of
        None \<Rightarrow> False
      | Some m \<Rightarrow> pm_createdAt m \<noteq> None \<or> pm_updatedAt m \<noteq> None)"
| "supplies_dates (UPDATE_CONVERSATION cid updates) =
     (case u_metadata updates of None \<Rightarrow> False | Some m \<Rightarrow> pm_createdAt m \<noteq> None)"
| "supplies_dates (SET_METADATA cid m) = (pm_createdAt m \<noteq> None)"
| "supplies_dates a = False"

text \<open>
  The mappings a store reaches from the empty one by reducer actions, under a JSON parser
  and a clock that does not run behind the stored creation times, with payloads that
  carry no dates.
\<close>

inductive reachable :: "conversations \<Rightarrow> bool" where
  initial: "reachable Map.empty"
| step: "reachable s \<Longrightarrow> json_parser env \<Longrightarrow> clock_ok env s \<Longrightarrow> \<not> supplies_dates a \<Longrightarrow>
         conversationReducer env s a = Inr s' \<Longrightarrow> reachable s'"

text \<open>The update time of conversation \<open>cid\<close> in the mapping a call returned, if it returned one.\<close>

definition updatedAt_of :: "js_error + conversations \<Rightarrow> string \<Rightarrow> int option" where
  "updatedAt_of r cid =
     (case r of
        Inl e \<Rightarrow> None
      | Inr s \<Rightarrow> map_option (\<lambda>c. updatedAt (metadata c)) (s cid))"

section \<open>The reducer on a heap of objects\<close>

text \<open>
  Whether the reducer writes to the objects it is given is a question about references,
  which the mappings above, being values, cannot ask. Here the store's objects live on a
  heap: a list of objects, an address being an index and an allocation an append. The
  \<open>Map\<close> holds its keys in insertion order, each with the address of a conversation
  object; a conversation object holds its id and the addresses of its message array, its
  metadata object and its provider \<open>Set\<close>. Messages are never written to and are kept by
  value.
\<close>

type_synonym addr = nat

datatype obj =
    MapObj "(string \<times> addr) list"
  | ConvObj string addr addr addr
  | ArrayObj "conversation_message list"
  | MetaObj conversation_metadata
  | SetObj "string set"

type_synonym heap = "obj list"

definition lookup :: "heap \<Rightarrow> addr \<Rightarrow> obj option" where
  "lookup h a = (if a < length h then Some (h ! a) else None)"

text \<open>A new object, and a write to an object that exists.\<close>

definition alloc :: "heap \<Rightarrow> obj \<Rightarrow> addr \<times> heap" where
  "alloc h ob = (length h, h @ [ob])"

definition store :: "heap \<Rightarrow> addr \<Rightarrow> obj \<Rightarrow> heap" where
  "store h a ob = h[a := ob]"

text \<open>
  The operations of \<open>Map\<close>, \<open>Set\<close> and \<open>Array\<close> the reducer calls. Each is \<open>None\<close> on an
  address that does not hold an object of its kind, which a well-formed store never
  meets. \<open>Map_get\<close> is \<open>Some None\<close> for undefined.
\<close>

definition new_Map :: "heap \<Rightarrow> addr \<Rightarrow> (addr \<times> heap) option" where
  "new_Map h a = (case lookup h a of Some (MapObj kvs) \<Rightarrow> Some (alloc h (MapObj kvs)) | _ \<Rightarrow> None)"

definition Map_get :: "heap \<Rightarrow> addr \<Rightarrow> string \<Rightarrow> addr option option" where
  "Map_get h a k = (case lookup h a of Some (MapObj kvs) \<Rightarrow> Some (map_of kvs k) | _ \<Rightarrow> None)"

definition Map_set :: "heap \<Rightarrow> addr \<Rightarrow> string \<Rightarrow> addr \<Rightarrow> heap option" where
  "Map_set h a k v =
     (case lookup h a of
        Some (MapObj kvs) \<Rightarrow> Some (store h a (MapObj (AList.update k v kvs)))
      | _ \<Rightarrow> None)"

definition Map_delete :: "heap \<Rightarrow> addr \<Rightarrow> string \<Rightarrow> heap option" where
  "Map_delete h a k =
     (case lookup h a of
        Some (MapObj kvs) \<Rightarrow> Some (store h a (MapObj (AList.delete k kvs)))
      | _ \<Rightarrow> None)"

definition new_Set :: "heap \<Rightarrow> addr \<Rightarrow> (addr \<times> heap) option" where
  "new_Set h a = (case lookup h a of Some (SetObj ps) \<Rightarrow> Some (alloc h (SetObj ps)) | _ \<Rightarrow> None)"

definition Set_has :: "heap \<Rightarrow> addr \<Rightarrow> string \<Rightarrow> bool option" where
  "Set_has h a p = (case lookup h a of Some (SetObj ps) \<Rightarrow> Some (p \<in> ps) | _ \<Rightarrow> None)"

definition Set_add :: "heap \<Rightarrow> addr \<Rightarrow> string \<Rightarrow> heap option" where
  "Set_add h a p =
     (case lookup h a of Some (SetObj ps) \<Rightarrow> Some (store h a (SetObj (insert p ps))) | _ \<Rightarrow> None)"

definition Set_delete :: "heap \<Rightarrow> addr \<Rightarrow> string \<Rightarrow> heap option" where
  "Set_delete h a p =
     (case lookup h a of Some (SetObj ps) \<Rightarrow> Some (store h a (SetObj (ps - {p}))) | _ \<Rightarrow> None)"

definition Array_push :: "heap \<Rightarrow> addr \<Rightarrow> conversation_message \<Rightarrow> heap option" where
  "Array_push h a m =
     (case lookup h a of Some (ArrayObj ms) \<Rightarrow> Some (store h a (ArrayObj (ms @ [m]))) | _ \<Rightarrow> None)"

text \<open>Reading the fields of a conversation object and what they refer to.\<close>

definition get_conv :: "heap \<Rightarrow> addr \<Rightarrow> (string \<times> addr \<times> addr \<times> addr) option" where
  "get_conv h a = (case lookup h a of Some (ConvObj i ma md sa) \<Rightarrow> Some (i, ma, md, sa) | _ \<Rightarrow> None)"

definition get_array :: "heap \<Rightarrow> addr \<Rightarrow> conversation_message list option" where
  "get_array h a = (case lookup h a of Some (ArrayObj ms) \<Rightarrow> Some ms | _ \<Rightarrow> None)"

definition get_meta :: "heap \<Rightarrow> addr \<Rightarrow> conversation_metadata option" where
  "get_meta h a = (case lookup h a of Some (MetaObj m) \<Rightarrow> Some m | _ \<Rightarrow> None)"

definition get_set :: "heap \<Rightarrow> addr \<Rightarrow> string set option" where
  "get_set h a = (case lookup h a of Some (SetObj ps) \<Rightarrow> Some ps | _ \<Rightarrow> None)"

text \<open>
  The conversation an address stands for, and the mapping a \<open>Map\<close> object stands for: the
  values the reducer of the previous section works on. An address is a store when it
  stands for a mapping.
\<close>

definition conv_at :: "heap \<Rightarrow> addr \<Rightarrow> conversation option" where
  "conv_at h a =
     do { (i, ma, md, sa) \<leftarrow> get_conv h a;
          ms \<leftarrow> get_array h ma;
          m \<leftarrow> get_meta h md;
          ps \<leftarrow> get_set h sa;
          Some \<lparr>c_id = i, messages = ms, metadata = m, activeProviders = ps\<rparr> }"

definition state_at :: "heap \<Rightarrow> addr \<Rightarrow> conversations option" where
  "state_at h a =
     (case lookup h a of
        Some (MapObj kvs) \<Rightarrow>
          if list_all (\<lambda>kv. conv_at h (snd kv) \<noteq> None) kvs
          then Some (\<lambda>k. Option.bind (map_of kvs k) (conv_at h))
          else None
      | _ \<Rightarrow> None)"

text \<open>The address the \<open>Map\<close> at \<open>a\<close> holds under a key: the identity of the entry.\<close>

definition entry_ref :: "heap \<Rightarrow> addr \<Rightarrow> string \<Rightarrow> addr option" where
  "entry_ref h a k = Option.bind (Map_get h a k) (\<lambda>r. r)"

text \<open>
  \<open>return new Map(state).set(id, conversation)\<close>, the end of every branch that stores a
  conversation.
\<close>

definition return_set :: "heap \<Rightarrow> addr \<Rightarrow> string \<Rightarrow> addr \<Rightarrow> ((js_error + addr) \<times> heap) option" where
  "return_set h state cid ca =
     do { (newState, h1) \<leftarrow> new_Map h state;
          h2 \<leftarrow> Map_set h1 newState cid ca;
          Some (Inr newState, h2) }"

text \<open>
  An object literal that spreads a conversation: a new conversation object with the
  given id and field addresses.
\<close>

definition new_conv :: "heap \<Rightarrow> string \<Rightarrow> addr \<Rightarrow> addr \<Rightarrow> addr \<Rightarrow> addr \<times> heap" where
  "new_conv h i ma md sa = alloc h (ConvObj i ma md sa)"

text \<open>
  The reducer, from the heap and the address of the current \<open>Map\<close> to what it returns
  (the address of the new \<open>Map\<close>) or throws, and the heap it leaves. The objects of a
  payload (the arrays, sets and metadata an action brings) are the caller's; they enter
  the heap where the reducer first refers to them. The parsed value of an import is
  stored through the cast, object by object.
\<close>

fun reducer_on_heap ::
  "reducer_env \<Rightarrow> heap \<Rightarrow> addr \<Rightarrow> conversation_action \<Rightarrow> ((js_error + addr) \<times> heap) option" where
  "reducer_on_heap env h state (CREATE_CONVERSATION payload) =
     do { let cid = uuid1 env;
          let now = date1 env;
          let (ma, h1) = alloc h (ArrayObj []);
          let (md, h2) = alloc h1 (MetaObj (spread_metadata_opt
                 \<lparr>createdAt = now, updatedAt = now,
                  title = or_str (Option.bind (co_metadata payload) pm_title) (''Conversation '' @ cid),
                  description = or_str (Option.bind (co_metadata payload) pm_description) [],
                  extension = Map.empty\<rparr>
                 (co_metadata payload)));
          let (sa, h3) = alloc h2 (SetObj (set (case co_providerIds payload of None \<Rightarrow> [] | Some ps \<Rightarrow> ps)));
          let (ca, h4) = new_conv h3 cid ma md sa;
          let initial = or_str (co_initialMessage payload) [];
          h5 \<leftarrow> (if initial \<noteq> []
                 then Array_push h4 ma
                        \<lparr>m_id = uuid2 env, m_role = User,
                         m_content = Part \<lparr>part_type = ''text'', part_text = Some initial, part_data = None\<rparr>,
                         m_timestamp = now,
                         m_providerId =
                           or_str (case co_providerIds payload of
                                     None \<Rightarrow> None | Some [] \<Rightarrow> None | Some (p # ps) \<Rightarrow> Some p) [],
                         m_options = \<lparr>o_model = None, o_maxTokens = None, o_temperature = None,
                                      o_topProbability = None, o_topKTokens = None,
                                      o_systemMessage = None\<rparr>\<rparr>
                 else Some h4);
          return_set h5 state cid ca }"
| "reducer_on_heap env h state (UPDATE_CONVERSATION cid updates) =
     do { entry \<leftarrow> Map_get h state cid;
          case entry of
            None \<Rightarrow> Some (Inl (ConversationNotFoundError cid), h)
          | Some conversation \<Rightarrow>
              do { (i, ma, md, sa) \<leftarrow> get_conv h conversation;
                   let (ma', h1) = (case u_messages updates of
                                      None \<Rightarrow> (ma, h) | Some ms \<Rightarrow> alloc h (ArrayObj ms));
                   let (sa', h2) = (case u_activeProviders updates of
                                      None \<Rightarrow> (sa, h1) | Some ps \<Rightarrow> alloc h1 (SetObj ps));
                   m \<leftarrow> get_meta h2 md;
                   let (md', h3) = alloc h2 (MetaObj
                         ((spread_metadata_opt m (u_metadata updates))\<lparr>updatedAt := date1 env\<rparr>));
                   let (ca, h4) = new_conv h3 (case u_id updates of None \<Rightarrow> i | Some j \<Rightarrow> j) ma' md' sa';
                   return_set h4 state cid ca } }"
| "reducer_on_heap env h state (DELETE_CONVERSATION cid) =
     do { (newState, h1) \<leftarrow> new_Map h state;
          h2 \<leftarrow> Map_delete h1 newState cid;
          Some (Inr newState, h2) }"
| "reducer_on_heap env h state (ADD_MESSAGE cid msg) =
     do { entry \<leftarrow> Map_get h state cid;
          case entry of
            None \<Rightarrow> Some (Inl (ConversationNotFoundError cid), h)
          | Some conversation \<Rightarrow>
              do { (i, ma, md, sa) \<leftarrow> get_conv h conversation;
                   ms \<leftarrow> get_array h ma;
                   let (ma', h1) = alloc h (ArrayObj (ms @
                         [\<lparr>m_id = uuid1 env, m_role = nm_role msg, m_content = nm_content msg,
                           m_timestamp = date1 env, m_providerId = nm_providerId msg,
                           m_options = nm_options msg\<rparr>]));
                   (sa', h2) \<leftarrow> new_Set h1 sa;
                   h3 \<leftarrow> Set_add h2 sa' (nm_providerId msg);
                   m \<leftarrow> get_meta h3 md;
                   let (md', h4) = alloc h3 (MetaObj (m\<lparr>updatedAt := date2 env\<rparr>));
                   let (ca, h5) = new_conv h4 i ma' md' sa';
                   return_set h5 state cid ca } }"
| "reducer_on_heap env h state (SET_METADATA cid pm) =
     do { entry \<leftarrow> Map_get h state cid;
          case entry of
            None \<Rightarrow> Some (Inl (ConversationNotFoundError cid), h)
          | Some conversation \<Rightarrow>
              do { (i, ma, md, sa) \<leftarrow> get_conv h conversation;
                   m \<leftarrow> get_meta h md;
                   let (md', h1) = alloc h (MetaObj ((spread_metadata m pm)\<lparr>updatedAt := date1 env\<rparr>));
                   let (ca, h2) = new_conv h1 i ma md' sa;
                   return_set h2 state cid ca } }"
| "reducer_on_heap env h state (ADD_PROVIDER cid providerId) =
     do { entry \<leftarrow> Map_get h state cid;
          case entry of
            None \<Rightarrow> Some (Inl (ConversationNotFoundError cid), h)
          | Some conversation \<Rightarrow>
              do { (i, ma, md, sa) \<leftarrow> get_conv h conversation;
                   (sa', h1) \<leftarrow> new_Set h sa;
                   h2 \<leftarrow> Set_add h1 sa' providerId;
                   m \<leftarrow> get_meta h2 md;
                   let (md', h3) = alloc h2 (MetaObj (m\<lparr>updatedAt := date1 env\<rparr>));
                   let (ca, h4) = new_conv h3 i ma md' sa';
                   return_set h4 state cid ca } }"
| "reducer_on_heap env h state (REMOVE_PROVIDER cid providerId) =
     do { entry \<leftarrow> Map_get h state cid;
          case entry of
            None \<Rightarrow> Some (Inl (ConversationNotFoundError cid), h)
          | Some conversation \<Rightarrow>
              do { (i, ma, md, sa) \<leftarrow> get_conv h conversation;
                   active \<leftarrow> Set_has h sa providerId;
                   if \<not> active
                   then Some (Inl (InvalidConversationOperationError
                          (''Provider '' @ providerId @ '' is not active in conversation '' @ cid)), h)
                   else do { (updatedProviders, h1) \<leftarrow> new_Set h sa;
                             h2 \<leftarrow> Set_delete h1 updatedProviders providerId;
                             m \<leftarrow> get_meta h2 md;
                             let (md', h3) = alloc h2 (MetaObj (m\<lparr>updatedAt := date1 env\<rparr>));
                             let (ca, h4) = new_conv h3 i ma md' updatedProviders;
                             return_set h4 state cid ca } } }"
| "reducer_on_heap env h state (CLEAR_HISTORY cid) =
     do { entry \<leftarrow> Map_get h state cid;
          case entry of
            None \<Rightarrow> Some (Inl (ConversationNotFoundError cid), h)
          | Some conversation \<Rightarrow>
              do { (i, ma, md, sa) \<leftarrow> get_conv h conversation;
                   let (ma', h1) = alloc h (ArrayObj []);
                   m \<leftarrow> get_meta h1 md;
                   let (md', h2) = alloc h1 (MetaObj (m\<lparr>updatedAt := date1 env\<rparr>));
                   let (ca, h3) = new_conv h2 i ma' md' sa;
                   return_set h3 state cid ca } }"
| "reducer_on_heap env h state (IMPORT_CONVERSATION payload) =
     (case JSON_parse env payload of
        Inl e \<Rightarrow> Some (Inl (import_failed e), h)
      | Inr parsedData \<Rightarrow>
          (case isValidConversation parsedData of
             Inl e \<Rightarrow> Some (Inl (import_failed e), h)
           | Inr valid \<Rightarrow>
               if \<not> valid
               then Some (Inl (import_failed (Error ''Error'' ''Invalid conversation data structure'')), h)
               else do { let c = as_Conversation env parsedData;
                         let (ma, h1) = alloc h (ArrayObj (messages c));
                         let (md, h2) = alloc h1 (MetaObj (metadata c));
                         let (sa, h3) = alloc h2 (SetObj (activeProviders c));
                         let (ca, h4) = new_conv h3 (c_id c) ma md sa;
                         return_set h4 state (c_id c) ca }))"

text \<open>
  What a caller sees of a call: the exception, or the mapping the returned address stands
  for in the heap the call left.
\<close>

definition outcome :: "((js_error + addr) \<times> heap) option \<Rightarrow> (js_error + conversations) option" where
  "outcome r =
     (case r of
        None \<Rightarrow> None
      | Some (Inl e, h') \<Rightarrow> Some (Inl e)
      | Some (Inr a, h') \<Rightarrow> map_option Inr (state_at h' a))"

text \<open>The key an action writes, if it writes one.\<close>

fun written_key :: "reducer_env \<Rightarrow> conversation_action \<Rightarrow> string" where
  "written_key env (CREATE_CONVERSATION payload) = uuid1 env"
| "written_key env (UPDATE_CONVERSATION cid updates) = cid"
| "written_key env (DELETE_CONVERSATION cid) = cid"
| "written_key env (ADD_MESSAGE cid msg) = cid"
| "written_key env (SET_METADATA cid pm) = cid"
| "written_key env (ADD_PROVIDER cid providerId) = cid"
| "written_key env (REMOVE_PROVIDER cid providerId) = cid"
| "written_key env (CLEAR_HISTORY cid) = cid"
| "written_key env (IMPORT_CONVERSATION payload) =
     (case JSON_parse env payload of
        Inl e \<Rightarrow> []
      | Inr parsedData \<Rightarrow> c_id (as_Conversation env parsedData))"

section \<open>Concrete inputs and auxiliary notions\<close>

definition no_options :: llm_options where
  "no_options = \<lparr>o_model = None, o_maxTokens = None, o_temperature = None,
                  o_topProbability = None, o_topKTokens = None, o_systemMessage = None\<rparr>"

text \<open>The documented shape of a text message, as the repository's test builds it.\<close>

definition france_message :: chat_message where
  "france_message =
     \<lparr>role = User,
      content = Part \<lparr>part_type = ''text'', part_text = Some ''What is the capital of France?'',
                      part_data = None\<rparr>\<rparr>"

text \<open>The same text in the shape the OpenAI adapter reads.\<close>

definition france_message_data :: chat_message where
  "france_message_data =
     \<lparr>role = User,
      content = Part \<lparr>part_type = ''text'', part_text = None,
                      part_data = Some \<lparr>data_text = Some ''What is the capital of France?''\<rparr>\<rparr>\<rparr>"

definition france_params :: chat_params where
  "france_params = \<lparr>p_messages = [france_message], p_options = no_options\<rparr>"

definition gemini :: google_provider where
  "gemini =
     \<lparr>g_key = Some ''secret'',
      availableModels =
        [''gemini-pro'' \<mapsto> \<lparr>gm_name = ''Gemini Pro'', gm_endpoint = ''https://host/gemini-pro''\<rparr>],
      defaultModel = ''gemini-pro''\<rparr>"

text \<open>A serialised conversation, its provider set written as an array, and its parse.\<close>

definition exported_conversation :: string where
  \<open>exported_conversation = ''{"id":"c1","messages":[],"metadata":{},"activeProviders":["openai"]}''\<close>

definition exported_conversation_parsed :: jsvalue where
  "exported_conversation_parsed =
     VObject [(''id'', VString ''c1''), (''messages'', VArray []), (''metadata'', VObject []),
              (''activeProviders'', VArray [VString ''openai''])]"

definition empty_conversation :: "string \<Rightarrow> conversation" where
  "empty_conversation cid =
     \<lparr>c_id = cid, messages = [],
      metadata = \<lparr>createdAt = 0, updatedAt = 0, title = [], description = [], extension = Map.empty\<rparr>,
      activeProviders = {}\<rparr>"

definition sample_env :: reducer_env where
  "sample_env =
     \<lparr>uuid1 = ''u1'', uuid2 = ''u2'', date1 = 100, date2 = 101,
      JSON_parse = (\<lambda>s. if s = exported_conversation then Inr exported_conversation_parsed
                         else Inl (Error ''SyntaxError'' ''Unexpected token'')),
      as_Conversation = (\<lambda>v. empty_conversation
                                (case get_prop v ''id'' of Some (VString s) \<Rightarrow> s | _ \<Rightarrow> []))\<rparr>"

definition hi_message :: new_message where
  "hi_message =
     \<lparr>nm_role = User,
      nm_content = Part \<lparr>part_type = ''text'', part_text = Some ''Hi'', part_data = None\<rparr>,
      nm_timestamp = 0, nm_providerId = ''openai'', nm_options = no_options\<rparr>"

definition no_metadata :: partial_metadata where
  "no_metadata = \<lparr>pm_createdAt = None, pm_updatedAt = None, pm_title = None,
                   pm_description = None, pm_extension = Map.empty\<rparr>"

definition no_updates :: conversation_updates where
  "no_updates = \<lparr>u_id = None, u_messages = None, u_metadata = None, u_activeProviders = None\<rparr>"

text \<open>
  A backend that answers every request of the Google adapter's stream with HTTP status 401
  and a body that is not JSON.
\<close>

definition fetch_401 :: google_fetch where
  "fetch_401 url req = HttpNotOk 401 ''null''"

text \<open>The counters the backend reported, zero where it reported no usage.\<close>

definition reported :: "openai_usage option \<Rightarrow> usage" where
  "reported u =
     (case u of
        None \<Rightarrow> \<lparr>promptTokens = 0, completionTokens = 0, totalTokens = 0\<rparr>
      | Some b \<Rightarrow> \<lparr>promptTokens = prompt_tokens b, completionTokens = completion_tokens b,
                   totalTokens = total_tokens b\<rparr>)"

definition counters_nonneg :: "usage \<Rightarrow> bool" where
  "counters_nonneg u = (0 \<le> promptTokens u \<and> 0 \<le> completionTokens u \<and> 0 \<le> totalTokens u)"

text \<open>A backend of the Google SDK that answers \<open>Paris\<close>, and an OpenAI backend that does so
  without reporting usage.\<close>

definition paris_sdk :: google_sdk where
  "paris_sdk model prompt = Inr ''Paris''"

definition paris_backend :: openai_backend where
  "paris_backend q =
     Inr \<lparr>choices = [\<lparr>ch_content = Some ''Paris'', ch_finish_reason = Some ''stop''\<rparr>],
          resp_usage = None\<rparr>"

definition france_params_data :: chat_params where
  "france_params_data = \<lparr>p_messages = [france_message_data], p_options = no_options\<rparr>"

text \<open>
  A creation whose payload carries a creation time later than its update time, and the
  first scenario of the specification: a creation titled \<open>Demo\<close>, with the conversation it
  stores.
\<close>

definition backdated :: create_options where
  "backdated =
     \<lparr>co_initialMessage = None,
      co_metadata = Some (no_metadata\<lparr>pm_createdAt := Some 10, pm_updatedAt := Some 5\<rparr>),
      co_providerIds = None\<rparr>"

definition demo :: create_options where
  "demo = \<lparr>co_initialMessage = None,
           co_metadata = Some (no_metadata\<lparr>pm_title := Some ''Demo''\<rparr>),
           co_providerIds = None\<rparr>"

definition demo_conversation :: conversation where
  "demo_conversation =
     \<lparr>c_id = ''u1'', messages = [],
      metadata = \<lparr>createdAt = 100, updatedAt = 100, title = ''Demo'', description = [],
                  extension = Map.empty\<rparr>,
      activeProviders = {}\<rparr>"







text \<open>The three ways a call on a store ends.\<close>

definition throws :: "reducer_env \<Rightarrow> heap \<Rightarrow> addr \<Rightarrow> conversations \<Rightarrow> conversation_action \<Rightarrow> bool" where
  "throws env h st s act =
     (\<exists>e. reducer_on_heap env h st act = Some (Inl e, h) \<and> conversationReducer env s act = Inl e)"

definition stores :: "reducer_env \<Rightarrow> heap \<Rightarrow> addr \<Rightarrow> (string \<times> addr) list \<Rightarrow> conversations \<Rightarrow> conversation_action \<Rightarrow> bool" where
  "stores env h st kvs s act =
     (\<exists>news ca c.
        reducer_on_heap env h st act =
          Some (Inr (length h + length news),
                h @ news @ [MapObj (AList.update (written_key env act) ca kvs)]) \<and>
        conv_at (h @ news) ca = Some c \<and>
        conversationReducer env s act = Inr (s(written_key env act \<mapsto> c)))"

definition deletes :: "reducer_env \<Rightarrow> heap \<Rightarrow> addr \<Rightarrow> (string \<times> addr) list \<Rightarrow> conversations \<Rightarrow> conversation_action \<Rightarrow> bool" where
  "deletes env h st kvs s act =
     (reducer_on_heap env h st act =
        Some (Inr (length h), h @ [MapObj (AList.delete (written_key env act) kvs)]) \<and>
      conversationReducer env s act = Inr (s(written_key env act := None)))"

text \<open>
  What a call on a store comes to: the outcome of the reducer on the mapping the store
  stands for, on a heap that has only grown, in which every entry but the written one is
  the object it was.
\<close>

definition pure_call :: "reducer_env \<Rightarrow> heap \<Rightarrow> addr \<Rightarrow> conversations \<Rightarrow> conversation_action \<Rightarrow> bool" where
  "pure_call env h st s act =
     (\<exists>res news.
        reducer_on_heap env h st act = Some (res, h @ news) \<and>
        outcome (Some (res, h @ news)) = Some (conversationReducer env s act) \<and>
        state_at (h @ news) st = Some s \<and>
        (\<forall>a k. res = Inr a \<and> k \<noteq> written_key env act \<longrightarrow>
           entry_ref (h @ news) a k = entry_ref h st k))"

text \<open>
  Two stores of the same two conversations, laid out differently: in the first the \<open>Map\<close>
  is at address 0, in the second at address 8.
\<close>

definition two_conversations :: conversations where
  "two_conversations = [''u1'' \<mapsto> demo_conversation, ''c0'' \<mapsto> empty_conversation ''c0'']"

definition heap0 :: heap where
  "heap0 = [MapObj [(''u1'', 4), (''c0'', 8)],
            ArrayObj (messages demo_conversation), MetaObj (metadata demo_conversation),
            SetObj (activeProviders demo_conversation), ConvObj ''u1'' 1 2 3,
            ArrayObj [], MetaObj (metadata (empty_conversation ''c0'')), SetObj {},
            ConvObj ''c0'' 5 6 7]"

definition heap1 :: heap where
  "heap1 = [ArrayObj [], SetObj {}, MetaObj (metadata (empty_conversation ''c0'')),
            ConvObj ''c0'' 0 2 1,
            ArrayObj (messages demo_conversation), SetObj (activeProviders demo_conversation),
            MetaObj (metadata demo_conversation), ConvObj ''u1'' 4 6 5,
            MapObj [(''c0'', 3), (''u1'', 7)]]"

section \<open>Error normalization\<close>

lemma OpenAI_handleError_normalized:
  "normalized (OpenAI_handleError e) \<and> provider_of (OpenAI_handleError e) = Some ''OpenAI''"
  by (cases e) auto

lemma Anthropic_handleError_normalized:
  "\<not> nullish e \<Longrightarrow>
   normalized (Anthropic_handleError e) \<and> provider_of (Anthropic_handleError e) = Some ''Anthropic''"
  by (simp add: Anthropic_handleError_def)

lemma Anthropic_handleError_nullish:
  "Anthropic_handleError ThrownNull = cannot_read ''null'' ''status'' \<and>
   Anthropic_handleError ThrownUndefined = cannot_read ''undefined'' ''status'' \<and>
   \<not> normalized (cannot_read what prop)"
  by (simp add: Anthropic_handleError_def cannot_read_def)

lemma Google_handleError_cases:
  "normalized (Google_handleError e) \<and> provider_of (Google_handleError e) = Some ''Google'' \<or>
   Google_handleError e = Error ''Error'' (''Google provider error: '' @ to_string e)"
  by (simp add: Google_handleError_def)

lemma dec_401: "dec 401 = ''401''"
  by code_simp

text \<open>
  C1. Every failure inside an adapter's methods should leave the adapter as an
  AuthenticationError, a RateLimitError or an InvalidRequestError tagged with the
  provider's name, a 401 of the backend as an AuthenticationError. The handler of the
  OpenAI adapter does so, and that of the Anthropic adapter for everything thrown but null
  and undefined (\<open>OpenAI_handleError_normalized\<close>, \<open>Anthropic_handleError_normalized\<close>,
  \<open>Anthropic_handleError_nullish\<close>). The Google adapter's handler classifies by
  substrings of the message and throws a plain \<open>Error\<close> when none occurs: on a 401 of the
  backend the stream ends with such an \<open>Error\<close>, which is none of the three kinds.
\<close>

theorem Google_stream_401_leaks_plain_Error:
  "Google_streamChatCompletion fetch_401 gemini france_params =
     Inl (Error ''Error'' ''Google provider error: Error: HTTP error! status: 401, details: null'') \<and>
   normalized (Error ''Error'' ''Google provider error: Error: HTTP error! status: 401, details: null'')
     = False"
  by (simp add: Google_streamChatCompletion_def gemini_def france_params_def france_message_def
      no_options_def or_str_def or_num_def getKey_def google_contents_def to_google_part_def
      trim_def is_space_def fetch_401_def Google_handleError_def startsWith_def dec_401)

section \<open>Construction without a key\<close>

lemma GoogleProvider_constructor_no_key:
  "env ''GOOGLE_API_KEY'' = None \<Longrightarrow>
   GoogleProvider_constructor all_models default_model env None =
     Inl (AuthenticationError ''Google API key GOOGLE_API_KEY is required'' ''Google'')"
  by (simp add: GoogleProvider_constructor_def)

text \<open>
  C8. An adapter built without a key, in an environment without the backend's variable,
  should fail with an AuthenticationError. The Google adapter does
  (\<open>GoogleProvider_constructor_no_key\<close>); the OpenAI adapter throws a plain \<open>Error\<close>.
\<close>

theorem OpenAIProvider_constructor_plain_Error:
  "OpenAIProvider_constructor Map.empty =
     Inl (Error ''Error'' ''OpenAI API key not found in environment variables'') \<and>
   normalized (Error ''Error'' ''OpenAI API key not found in environment variables'') = False"
  by (simp add: OpenAIProvider_constructor_def)

section \<open>Message formatting of the OpenAI adapter\<close>

lemma formatMessage_data:
  "content m = Part part \<Longrightarrow> part_data part = Some \<lparr>data_text = Some s\<rparr> \<Longrightarrow>
   formatMessage m = Inr \<lparr>w_role = role m, w_content = s\<rparr>"
  by (simp add: formatMessage_def or_str_def)

text \<open>
  C10. A message whose content is the documented \<open>{type: "text", text: s}\<close> should be
  formatted to a wire message with the same role and the content \<open>s\<close>. The adapter reads
  \<open>content.data.text\<close>: on the message of the repository's own test, which has the
  documented shape, formatting throws a \<open>TypeError\<close>, and the chat completion fails with an
  InvalidRequestError whatever the backend would have answered.
\<close>

theorem formatMessages_documented_shape_throws:
  "formatMessages [france_message] = Inl (cannot_read ''undefined'' ''text'') \<and>
   OpenAI_generateChatCompletion create france_params =
     Inl (InvalidRequestError
            (''Unexpected error: '' @ message (cannot_read ''undefined'' ''text'')) ''OpenAI'')"
  by (simp add: formatMessages_def formatMessage_def france_message_def france_params_def
      OpenAI_generateChatCompletion_def withSystemMessage_def no_options_def cannot_read_def)

section \<open>The response of a chat completion\<close>

lemma or_str_nonempty: "d \<noteq> [] \<Longrightarrow> or_str a d \<noteq> []"
  by (simp add: or_str_def split: option.splits)

lemma or_num_zero: "or_num a 0 = (case a of None \<Rightarrow> 0 | Some n \<Rightarrow> n)"
  by (simp add: or_num_def split: option.splits)

lemma OpenAI_response:
  assumes "OpenAI_generateChatCompletion create params = Inr r"
  shows "r_model r \<noteq> [] \<and> (\<exists>q resp. create q = Inr resp \<and> r_usage r = Some (reported (resp_usage resp)))"
proof -
  from assms obtain ms where ms: "formatMessages (withSystemMessage (p_options params) (p_messages params)) = Inr ms"
    by (auto simp: OpenAI_generateChatCompletion_def Let_def split: sum.splits)
  let ?q = "\<lparr>q_model = or_str (o_model (p_options params)) DEFAULT_MODEL, q_messages = ms,
             q_max_tokens = or_num (o_maxTokens (p_options params)) DEFAULT_MAX_TOKENS,
             q_temperature = o_temperature (p_options params),
             q_top_p = o_topProbability (p_options params)\<rparr>"
  from assms ms obtain resp where resp: "create ?q = Inr resp"
    by (auto simp: OpenAI_generateChatCompletion_def Let_def split: sum.splits)
  have m: "or_str (o_model (p_options params)) DEFAULT_MODEL \<noteq> []"
    by (rule or_str_nonempty) (simp add: DEFAULT_MODEL_def)
  from assms ms resp have "r_model r = or_str (o_model (p_options params)) DEFAULT_MODEL"
    and "r_usage r = Some (reported (resp_usage resp))"
    by (auto simp: OpenAI_generateChatCompletion_def Let_def reported_def or_num_zero
        split: option.splits)
  with m resp show ?thesis by auto
qed

lemma Google_response:
  assumes "Google_generateChatCompletion generateContent p params = Inr r"
  shows "r_model r = or_str (o_model (p_options params)) (defaultModel p) \<and> r_usage r = None"
  using assms
  by (auto simp: Google_generateChatCompletion_def Let_def split: if_splits sum.splits)

text \<open>
  C5, as stated: every response of a chat completion carries usage counters, all at
  least zero and zero when the backend reports none. The Google adapter returns no usage
  at all.
\<close>

theorem Google_response_has_no_usage:
  "\<exists>r. Google_generateChatCompletion paris_sdk gemini france_params = Inr r \<and>
        r_text r = ''Paris'' \<and> r_usage r = None"
  by (simp add: Google_generateChatCompletion_def gemini_def france_params_def france_message_def
      no_options_def or_str_def paris_sdk_def convertMessagesToPrompt_def message_text_def)

text \<open>
  C5, amended. Whenever a chat completion returns a response: the OpenAI adapter's model
  field is not empty and its usage counters are the ones the backend reported, zero where
  it reported no usage, hence at least zero whenever the backend's are; the Google
  adapter's model field is not empty when its default model is not, and its response
  carries no usage.
\<close>

theorem generateChatCompletion_response:
  "(OpenAI_generateChatCompletion create params = Inr r \<longrightarrow>
      r_model r \<noteq> [] \<and>
      (\<exists>q resp. create q = Inr resp \<and> r_usage r = Some (reported (resp_usage resp)) \<and>
         (resp_usage resp = None \<longrightarrow>
            r_usage r = Some \<lparr>promptTokens = 0, completionTokens = 0, totalTokens = 0\<rparr>) \<and>
         (counters_nonneg (reported (resp_usage resp)) \<longrightarrow>
            (\<exists>u. r_usage r = Some u \<and> counters_nonneg u)))) \<and>
   (defaultModel p \<noteq> [] \<and> Google_generateChatCompletion generateContent p params' = Inr r' \<longrightarrow>
      r_model r' \<noteq> [] \<and> r_usage r' = None)"
proof (intro conjI impI)
  assume a: "OpenAI_generateChatCompletion create params = Inr r"
  from OpenAI_response [OF a] show "r_model r \<noteq> []" by simp
  from OpenAI_response [OF a] obtain q resp where
    qr: "create q = Inr resp" "r_usage r = Some (reported (resp_usage resp))" by auto
  have "resp_usage resp = None \<longrightarrow>
          r_usage r = Some \<lparr>promptTokens = 0, completionTokens = 0, totalTokens = 0\<rparr>"
    using qr by (simp add: reported_def)
  with qr show "\<exists>q resp. create q = Inr resp \<and> r_usage r = Some (reported (resp_usage resp)) \<and>
         (resp_usage resp = None \<longrightarrow>
            r_usage r = Some \<lparr>promptTokens = 0, completionTokens = 0, totalTokens = 0\<rparr>) \<and>
         (counters_nonneg (reported (resp_usage resp)) \<longrightarrow>
            (\<exists>u. r_usage r = Some u \<and> counters_nonneg u))"
    by (rule_tac x = q in exI, rule_tac x = resp in exI) simp
next
  assume b: "defaultModel p \<noteq> [] \<and> Google_generateChatCompletion generateContent p params' = Inr r'"
  then have "r_model r' = or_str (o_model (p_options params')) (defaultModel p)"
    using Google_response by blast
  with b show "r_model r' \<noteq> []" by (simp add: or_str_nonempty)
  from b show "r_usage r' = None" using Google_response by blast
qed

lemma paris_openai:
  "OpenAI_generateChatCompletion paris_backend france_params_data =
     Inr \<lparr>r_model = ''gpt-4o-mini'', r_text = ''Paris'', r_refusal = None, r_toolCalls = None,
          r_finishReason = Some ''stop'',
          r_usage = Some \<lparr>promptTokens = 0, completionTokens = 0, totalTokens = 0\<rparr>,
          r_outputVariables = None\<rparr>"
  by (simp add: OpenAI_generateChatCompletion_def paris_backend_def france_params_data_def
      france_message_data_def no_options_def withSystemMessage_def formatMessages_def
      formatMessage_def or_str_def or_num_def DEFAULT_MODEL_def)

lemma paris_google:
  "Google_generateChatCompletion paris_sdk gemini france_params =
     Inr \<lparr>r_model = ''gemini-pro'', r_text = ''Paris'', r_refusal = None, r_toolCalls = Some [],
          r_finishReason = None, r_usage = None,
          r_outputVariables = Some (extractOutputVariables ''Paris'')\<rparr>"
  by (simp add: Google_generateChatCompletion_def gemini_def france_params_def france_message_def
      no_options_def or_str_def paris_sdk_def convertMessagesToPrompt_def message_text_def)

lemma gemini_default: "defaultModel gemini = ''gemini-pro''"
  by (simp add: gemini_def)

theorem generateChatCompletion_response_witness:
  "(\<exists>r. OpenAI_generateChatCompletion paris_backend france_params_data = Inr r \<and>
        r_model r \<noteq> [] \<and>
        r_usage r = Some \<lparr>promptTokens = 0, completionTokens = 0, totalTokens = 0\<rparr>) \<and>
   defaultModel gemini \<noteq> [] \<and>
   (\<exists>r'. Google_generateChatCompletion paris_sdk gemini france_params = Inr r' \<and>
        r_model r' \<noteq> [] \<and> r_usage r' = None)"
  using generateChatCompletion_response
    [of paris_backend france_params_data
        "\<lparr>r_model = ''gpt-4o-mini'', r_text = ''Paris'', r_refusal = None, r_toolCalls = None,
          r_finishReason = Some ''stop'',
          r_usage = Some \<lparr>promptTokens = 0, completionTokens = 0, totalTokens = 0\<rparr>,
          r_outputVariables = None\<rparr>"
        gemini paris_sdk france_params
        "\<lparr>r_model = ''gemini-pro'', r_text = ''Paris'', r_refusal = None, r_toolCalls = Some [],
          r_finishReason = None, r_usage = None,
          r_outputVariables = Some (extractOutputVariables ''Paris'')\<rparr>"]
  by (simp add: paris_openai paris_google gemini_default)

section \<open>Importing a conversation\<close>

lemma is_json_not_valid:
  "is_json v \<Longrightarrow> isValidConversation v \<noteq> Inr True"
proof (cases v)
  case (VObject kvs)
  assume j: "is_json v"
  show ?thesis
  proof (cases "map_of kvs ''activeProviders''")
    case None
    with VObject show ?thesis by (simp add: isValidConversation_def)
  next
    case (Some w)
    then have "(''activeProviders'', w) \<in> set kvs" by (rule map_of_SomeD)
    with j VObject have "is_json w" by (auto simp: list_all_iff)
    then have "\<not> instanceof_Set (Some w)" by (cases w) auto
    with VObject Some show ?thesis by (simp add: isValidConversation_def)
  qed
qed (auto simp: isValidConversation_def)

text \<open>
  Under a parser that returns JSON values, no payload is imported: a value that passes
  \<open>isValidConversation\<close> holds a \<open>Set\<close> instance, and JSON has none.
\<close>

lemma import_rejected:
  assumes "json_parser env"
  shows "\<exists>e. conversationReducer env state (IMPORT_CONVERSATION payload) = Inl (import_failed e)"
proof (cases "JSON_parse env payload")
  case (Inl e)
  then show ?thesis by auto
next
  case (Inr v)
  with assms have "is_json v" by (auto simp: json_parser_def)
  then have nv: "isValidConversation v \<noteq> Inr True" by (rule is_json_not_valid)
  show ?thesis
  proof (cases "isValidConversation v")
    case (Inl e)
    with Inr show ?thesis by auto
  next
    case (Inr b)
    with nv have "\<not> b" by auto
    with Inr \<open>JSON_parse env payload = Inr v\<close> show ?thesis by auto
  qed
qed

lemma import_failed_message:
  "\<not> nullish e \<Longrightarrow> startsWith (message (import_failed e)) ''Failed to import conversation''"
  by (simp add: import_failed_def startsWith_def)

lemma sample_env_json: "json_parser sample_env"
  by (simp add: json_parser_def sample_env_def exported_conversation_parsed_def)

text \<open>
  C2. A payload that parses as a structurally valid conversation should be stored under
  its id, every other payload rejected with a ConversationError whose message contains
  \<open>Failed to import conversation\<close>. The rejection is as stated (\<open>import_rejected\<close>,
  \<open>import_failed_message\<close>; the parser throws no null), but it meets every payload: the
  serialised conversation below, with a string id, an array of messages, an object of
  metadata and its providers as an array, is rejected as an invalid data structure and
  nothing is stored.
\<close>

theorem import_of_exported_conversation_fails:
  "JSON_parse sample_env exported_conversation = Inr exported_conversation_parsed \<and>
   is_json exported_conversation_parsed \<and>
   conversationReducer sample_env Map.empty (IMPORT_CONVERSATION exported_conversation) =
     Inl (ConversationError ''Failed to import conversation: Invalid conversation data structure'')"
  by (simp add: sample_env_def exported_conversation_parsed_def isValidConversation_def
      import_failed_def)

section \<open>Creation and update times\<close>

lemma reachable_dates_ordered: "reachable s \<Longrightarrow> dates_ordered s"
proof (induction rule: reachable.induct)
  case initial
  show ?case by (simp add: dates_ordered_def)
next
  case (step s env a s')
  show ?case
  proof (cases a)
    case (IMPORT_CONVERSATION payload)
    from import_rejected [OF step.hyps(2), of s payload] step.hyps(5) IMPORT_CONVERSATION
    show ?thesis by auto
  next
    case (CREATE_CONVERSATION payload)
    with step show ?thesis
      by (auto simp: dates_ordered_def Let_def spread_metadata_opt_def spread_metadata_def
          split: option.splits if_splits)
  next
    case (UPDATE_CONVERSATION cid u)
    with step show ?thesis
      by (auto simp: dates_ordered_def clock_ok_def spread_metadata_opt_def spread_metadata_def
          split: option.splits if_splits)
  next
    case (DELETE_CONVERSATION cid)
    with step show ?thesis
      by (auto simp: dates_ordered_def split: option.splits if_splits)
  next
    case (ADD_MESSAGE cid m)
    with step show ?thesis
      by (auto simp: dates_ordered_def clock_ok_def Let_def split: option.splits if_splits)
  next
    case (SET_METADATA cid m)
    with step show ?thesis
      by (auto simp: dates_ordered_def clock_ok_def spread_metadata_def split: option.splits if_splits)
  next
    case (ADD_PROVIDER cid p)
    with step show ?thesis
      by (auto simp: dates_ordered_def clock_ok_def split: option.splits if_splits)
  next
    case (REMOVE_PROVIDER cid p)
    with step show ?thesis
      by (auto simp: dates_ordered_def clock_ok_def split: option.splits if_splits)
  next
    case (CLEAR_HISTORY cid)
    with step show ?thesis
      by (auto simp: dates_ordered_def clock_ok_def split: option.splits if_splits)
  qed
qed

lemma updatedAt_refreshed:
  "s cid = Some c \<Longrightarrow>
     updatedAt_of (conversationReducer env s (UPDATE_CONVERSATION cid u)) cid = Some (date1 env) \<and>
     updatedAt_of (conversationReducer env s (ADD_MESSAGE cid m)) cid = Some (date2 env) \<and>
     updatedAt_of (conversationReducer env s (SET_METADATA cid md)) cid = Some (date1 env) \<and>
     updatedAt_of (conversationReducer env s (ADD_PROVIDER cid p)) cid = Some (date1 env) \<and>
     updatedAt_of (conversationReducer env s (CLEAR_HISTORY cid)) cid = Some (date1 env) \<and>
     updatedAt_of (conversationReducer env s (REMOVE_PROVIDER cid p)) cid =
       (if p \<in> activeProviders c then Some (date1 env) else None)"
  by (simp add: updatedAt_of_def Let_def)

lemma create_demo:
  "conversationReducer sample_env Map.empty (CREATE_CONVERSATION demo) = Inr [''u1'' \<mapsto> demo_conversation]"
  by (simp add: sample_env_def demo_def demo_conversation_def no_metadata_def or_str_def
      spread_metadata_opt_def spread_metadata_def Let_def)

lemma reachable_demo: "reachable [''u1'' \<mapsto> demo_conversation]"
proof (rule reachable.step [OF reachable.initial sample_env_json _ _ create_demo])
  show "clock_ok sample_env Map.empty" by (simp add: clock_ok_def)
  show "\<not> supplies_dates (CREATE_CONVERSATION demo)" by (simp add: demo_def no_metadata_def)
qed

text \<open>
  C6, as stated: in every mapping that reducer actions produce, a conversation's update
  time is not earlier than its creation time. The creation's metadata is spread over the
  reducer's own, so a payload that carries both times stores them as they come.
\<close>

theorem create_stores_payload_dates:
  "\<exists>s c. conversationReducer sample_env Map.empty (CREATE_CONVERSATION backdated) = Inr s \<and>
          s ''u1'' = Some c \<and> updatedAt (metadata c) < createdAt (metadata c)"
  by (simp add: sample_env_def backdated_def no_metadata_def or_str_def
      spread_metadata_opt_def spread_metadata_def Let_def)

text \<open>
  C6, amended. Every UPDATE_CONVERSATION, ADD_MESSAGE, SET_METADATA, ADD_PROVIDER,
  CLEAR_HISTORY and (for an active provider) REMOVE_PROVIDER on a stored conversation sets
  its update time to the clock's reading; on a provider that is not active REMOVE_PROVIDER
  returns no mapping. The update time is not earlier than the creation time in every
  mapping reached from the empty one by actions whose payloads carry no creation time (on
  creation, no update time either), under a clock that reads no earlier than the creation
  times stored and a parser that returns JSON values.
\<close>

theorem updatedAt_refreshed_and_ordered:
  "(reachable s \<longrightarrow> dates_ordered s) \<and>
   (s' cid = Some c \<longrightarrow>
      updatedAt_of (conversationReducer env s' (UPDATE_CONVERSATION cid u)) cid = Some (date1 env) \<and>
      updatedAt_of (conversationReducer env s' (ADD_MESSAGE cid m)) cid = Some (date2 env) \<and>
      updatedAt_of (conversationReducer env s' (SET_METADATA cid md)) cid = Some (date1 env) \<and>
      updatedAt_of (conversationReducer env s' (ADD_PROVIDER cid p)) cid = Some (date1 env) \<and>
      updatedAt_of (conversationReducer env s' (CLEAR_HISTORY cid)) cid = Some (date1 env) \<and>
      updatedAt_of (conversationReducer env s' (REMOVE_PROVIDER cid p)) cid =
        (if p \<in> activeProviders c then Some (date1 env) else None))"
  using reachable_dates_ordered updatedAt_refreshed by blast

theorem updatedAt_refreshed_and_ordered_witness:
  "reachable [''u1'' \<mapsto> demo_conversation] \<and>
   dates_ordered [''u1'' \<mapsto> demo_conversation] \<and>
   [''u1'' \<mapsto> demo_conversation] ''u1'' = Some demo_conversation \<and>
   updatedAt_of (conversationReducer sample_env [''u1'' \<mapsto> demo_conversation]
                   (ADD_MESSAGE ''u1'' hi_message)) ''u1'' = Some 101 \<and>
   updatedAt_of (conversationReducer sample_env [''u1'' \<mapsto> demo_conversation]
                   (CLEAR_HISTORY ''u1'')) ''u1'' = Some 100 \<and>
   updatedAt_of (conversationReducer sample_env [''u1'' \<mapsto> demo_conversation]
                   (REMOVE_PROVIDER ''u1'' ''openai'')) ''u1'' = None"
  using updatedAt_refreshed_and_ordered
    [of "[''u1'' \<mapsto> demo_conversation]" "[''u1'' \<mapsto> demo_conversation]" "''u1''"
        demo_conversation sample_env no_updates hi_message no_metadata "''openai''"]
    reachable_demo
  by (simp add: sample_env_def demo_conversation_def)

section \<open>The emulated stream\<close>

















section \<open>Extraction of output variables\<close>

lemma assign_apply:
  "assign m n v name = (if n = ''__proto__'' then m name else if name = n then Some v else m name)"
  by (simp add: assign_def)

lemma foldl_assign_proto:
  "foldl (\<lambda>vars (n, v). assign vars n (trim v)) m ms ''__proto__'' = m ''__proto__''"
proof (induction ms rule: rev_induct)
  case Nil
  show ?case by simp
next
  case (snoc x ms)
  then show ?case by (cases x) (simp add: assign_apply)
qed

text \<open>Of the matches of one name, the last one sets the variable.\<close>

lemma foldl_assign:
  "name \<noteq> ''__proto__'' \<Longrightarrow>
   foldl (\<lambda>vars (n, v). assign vars n (trim v)) m ms name =
     (case map_of (rev ms) name of None \<Rightarrow> m name | Some v \<Rightarrow> Some (trim v))"
proof (induction ms rule: rev_induct)
  case Nil
  show ?case by simp
next
  case (snoc x ms)
  then show ?case by (cases x) (simp add: assign_apply)
qed

lemma not_space_lt: "\<not> is_space (CHR ''<'')"
  by (simp add: is_space_def)

lemma matches_blank: "list_all is_space s \<Longrightarrow> matches s = []"
proof (induction s)
  case Nil
  show ?case by (simp add: matches.simps)
next
  case (Cons c cs)
  then have "c \<noteq> CHR ''<''" using not_space_lt by auto
  then have "match_at (c # cs) = None" by (simp add: match_at_def)
  with Cons show ?case by (simp add: matches.simps)
qed

lemma dropWhile_all: "list_all P (dropWhile P s) \<Longrightarrow> list_all P s"
  by (induction s) (auto split: if_splits)

lemma trim_empty: "trim s = [] \<Longrightarrow> list_all is_space s"
proof -
  assume "trim s = []"
  then have "dropWhile is_space (rev (dropWhile is_space s)) = []" by (simp add: trim_def)
  then have "list_all is_space (rev (dropWhile is_space s))"
    by (simp add: dropWhile_eq_Nil_conv list_all_iff)
  then have "list_all is_space (dropWhile is_space s)" by (simp add: list_all_iff)
  then show ?thesis by (rule dropWhile_all)
qed

lemma summary_matches: "matches ''<summary>ok</summary>'' = [(''summary'', ''ok'')]"
  by code_simp

lemma summary_trim: "trim ''<summary>ok</summary>'' = ''<summary>ok</summary>''"
  by code_simp

lemma ok_trim: "trim ''ok'' = ''ok''"
  by code_simp

lemma blank_trim: "trim '' '' = []"
  by code_simp

lemma blank_matches: "matches '' '' = []"
  by code_simp

lemma summary_example:
  "extractOutputVariables ''<summary>ok</summary>'' =
     [''summary'' \<mapsto> ''ok'', ''qllm_response'' \<mapsto> ''<summary>ok</summary>'']"
  by (simp only: extractOutputVariables_def summary_matches summary_trim Let_def)
     (simp add: assign_def ok_trim)

text \<open>
  C9, as stated: for every response text the extracted variables hold, under
  \<open>qllm_response\<close>, the full trimmed text. A text of white space alone is passed to the
  extraction (it is not empty) and yields no \<open>qllm_response\<close>.
\<close>

theorem blank_text_has_no_qllm_response:
  "extractOutputVariables '' '' ''qllm_response'' \<noteq> Some (trim '' '')"
  by (simp add: extractOutputVariables_def blank_trim blank_matches)

text \<open>
  C9, amended. The extracted variables map every tag name other than \<open>qllm_response\<close> and
  \<open>__proto__\<close> to the trimmed value of its last match in the scan of the text, and to
  nothing when it has no match; \<open>qllm_response\<close> holds the full trimmed text when that is
  not empty; a text of white space alone yields no variable at all; \<open>__proto__\<close> is never
  a variable. The text \<open><summary>ok</summary>\<close> yields exactly \<open>summary\<close> and
  \<open>qllm_response\<close>.
\<close>

theorem extractOutputVariables_spec:
  "(name \<noteq> ''qllm_response'' \<and> name \<noteq> ''__proto__'' \<longrightarrow>
      extractOutputVariables txt name = map_option trim (map_of (rev (matches txt)) name)) \<and>
   (trim txt \<noteq> [] \<longrightarrow> extractOutputVariables txt ''qllm_response'' = Some (trim txt)) \<and>
   (trim txt = [] \<longrightarrow> extractOutputVariables txt = Map.empty) \<and>
   extractOutputVariables txt ''__proto__'' = None \<and>
   extractOutputVariables ''<summary>ok</summary>'' =
     [''summary'' \<mapsto> ''ok'', ''qllm_response'' \<mapsto> ''<summary>ok</summary>'']"
proof -
  have a: "name \<noteq> ''qllm_response'' \<and> name \<noteq> ''__proto__'' \<longrightarrow>
      extractOutputVariables txt name = map_option trim (map_of (rev (matches txt)) name)"
    by (simp add: extractOutputVariables_def Let_def foldl_assign split: option.splits)
  have b: "trim txt \<noteq> [] \<longrightarrow> extractOutputVariables txt ''qllm_response'' = Some (trim txt)"
    by (simp add: extractOutputVariables_def Let_def)
  have c: "trim txt = [] \<longrightarrow> extractOutputVariables txt = Map.empty"
    using matches_blank [OF trim_empty] by (auto simp: extractOutputVariables_def Let_def)
  have d: "extractOutputVariables txt ''__proto__'' = None"
    by (simp add: extractOutputVariables_def Let_def foldl_assign_proto)
  from a b c d summary_example show ?thesis by blast
qed

lemma twice_matches: "matches ''<a> 1 </a><a>2</a>'' = [(''a'', '' 1 ''), (''a'', ''2'')]"
  by code_simp

lemma twice_trim: "trim ''<a> 1 </a><a>2</a>'' = ''<a> 1 </a><a>2</a>''"
  by code_simp

lemma two_trim: "trim ''2'' = ''2''"
  by code_simp

theorem extractOutputVariables_spec_witness:
  "extractOutputVariables ''<a> 1 </a><a>2</a>'' ''a'' = Some ''2'' \<and>
   extractOutputVariables ''<a> 1 </a><a>2</a>'' ''qllm_response'' = Some ''<a> 1 </a><a>2</a>'' \<and>
   trim '' '' = [] \<and> extractOutputVariables '' '' = Map.empty"
  using extractOutputVariables_spec [of "''a''" "''<a> 1 </a><a>2</a>''"]
    extractOutputVariables_spec [of "''a''" "'' ''"]
  by (simp add: twice_matches twice_trim two_trim blank_trim)

section \<open>The reducer leaves its input as it was\<close>

lemma lookup_append:
  "lookup (h @ xs) a =
     (if a < length h then lookup h a
      else if a - length h < length xs then Some (xs ! (a - length h)) else None)"
  by (auto simp: lookup_def nth_append)

lemma lookup_old: "lookup h a = Some ob \<Longrightarrow> lookup (h @ xs) a = Some ob"
  by (auto simp: lookup_def nth_append split: if_splits)

lemma get_conv_old: "get_conv h a = Some x \<Longrightarrow> get_conv (h @ xs) a = Some x"
  by (auto simp: get_conv_def lookup_old split: option.splits obj.splits)
lemma get_array_old: "get_array h a = Some x \<Longrightarrow> get_array (h @ xs) a = Some x"
  by (auto simp: get_array_def lookup_old split: option.splits obj.splits)
lemma get_meta_old: "get_meta h a = Some x \<Longrightarrow> get_meta (h @ xs) a = Some x"
  by (auto simp: get_meta_def lookup_old split: option.splits obj.splits)
lemma get_set_old: "get_set h a = Some x \<Longrightarrow> get_set (h @ xs) a = Some x"
  by (auto simp: get_set_def lookup_old split: option.splits obj.splits)

lemma conv_at_old: "conv_at h a = Some c \<Longrightarrow> conv_at (h @ xs) a = Some c"
  by (auto simp: conv_at_def get_conv_old get_array_old get_meta_old get_set_old
      split: Option.bind_splits)

lemma state_atD:
  "state_at h a = Some s \<Longrightarrow>
   \<exists>kvs. lookup h a = Some (MapObj kvs) \<and> list_all (\<lambda>kv. conv_at h (snd kv) \<noteq> None) kvs \<and>
      s = (\<lambda>k. Option.bind (map_of kvs k) (conv_at h))"
  by (auto simp: state_at_def split: option.splits obj.splits if_splits)

lemma list_all_update:
  "list_all P kvs \<Longrightarrow> P (k, v) \<Longrightarrow> list_all P (AList.update k v kvs)"
  by (induction kvs) (auto)

lemma state_at_new:
  assumes "list_all (\<lambda>kv. conv_at h (snd kv) \<noteq> None) kvs" and "conv_at h ca = Some c"
  shows "state_at (h @ [MapObj (AList.update k ca kvs)]) (length h) =
           Some ((\<lambda>k. Option.bind (map_of kvs k) (conv_at h))(k \<mapsto> c))"
proof -
  let ?h = "h @ [MapObj (AList.update k ca kvs)]"
  have old: "conv_at h a \<noteq> None \<Longrightarrow> conv_at ?h a = conv_at h a" for a
    using conv_at_old [of h a] by auto
  have "list_all (\<lambda>kv. conv_at ?h (snd kv) \<noteq> None) kvs"
    using assms(1) old by (auto simp: list_all_iff)
  moreover have "conv_at ?h ca = Some c" using assms(2) by (rule conv_at_old)
  ultimately have all: "list_all (\<lambda>kv. conv_at ?h (snd kv) \<noteq> None) (AList.update k ca kvs)"
    by (intro list_all_update) auto
  have "Option.bind (map_of (AList.update k ca kvs) k') (conv_at ?h) =
        ((\<lambda>k. Option.bind (map_of kvs k) (conv_at h))(k \<mapsto> c)) k'" for k'
  proof (cases "k' = k")
    case True
    then show ?thesis using \<open>conv_at ?h ca = Some c\<close> by (simp add: update_conv')
  next
    case False
    show ?thesis
    proof (cases "map_of kvs k'")
      case None
      with False show ?thesis by (simp add: update_conv')
    next
      case (Some a)
      then have "(k', a) \<in> set kvs" by (rule map_of_SomeD)
      with assms(1) have "conv_at h a \<noteq> None" by (auto simp: list_all_iff)
      with old Some False show ?thesis by (simp add: update_conv')
    qed
  qed
  then have "(\<lambda>k'. Option.bind (map_of (AList.update k ca kvs) k') (conv_at ?h)) =
        (\<lambda>k. Option.bind (map_of kvs k) (conv_at h))(k \<mapsto> c)" by (intro ext)
  with all show ?thesis by (simp add: state_at_def lookup_append)
qed

lemma lookup_SomeD: "lookup h a = Some ob \<Longrightarrow> a < length h"
  by (simp add: lookup_def split: if_splits)

lemma conv_at_lookups:
  "conv_at h a = Some c \<Longrightarrow>
   \<exists>ma md sa. lookup h a = Some (ConvObj (c_id c) ma md sa) \<and>
      lookup h ma = Some (ArrayObj (messages c)) \<and>
      lookup h md = Some (MetaObj (metadata c)) \<and>
      lookup h sa = Some (SetObj (activeProviders c))"
  by (auto simp: conv_at_def get_conv_def get_array_def get_meta_def get_set_def
      split: Option.bind_splits option.splits obj.splits)

lemmas heap_ops = Map_get_def new_Map_def Map_set_def Map_delete_def new_Set_def Set_has_def
  Set_add_def Set_delete_def Array_push_def get_conv_def get_array_def get_meta_def get_set_def
  alloc_def store_def new_conv_def return_set_def

lemma state_at_stored:
  assumes all: "list_all (\<lambda>kv. conv_at h (snd kv) \<noteq> None) kvs"
    and c: "conv_at (h @ news) ca = Some c"
  shows "state_at (h @ news @ [MapObj (AList.update k ca kvs)]) (length h + length news) =
           Some ((\<lambda>k. Option.bind (map_of kvs k) (conv_at h))(k \<mapsto> c))"
proof -
  have old: "conv_at h a \<noteq> None \<Longrightarrow> conv_at (h @ news) a = conv_at h a" for a
    using conv_at_old [of h a] by auto
  then have all': "list_all (\<lambda>kv. conv_at (h @ news) (snd kv) \<noteq> None) kvs"
    using all by (auto simp: list_all_iff)
  have "(\<lambda>k. Option.bind (map_of kvs k) (conv_at (h @ news))) =
        (\<lambda>k. Option.bind (map_of kvs k) (conv_at h))"
  proof
    fix k'
    show "Option.bind (map_of kvs k') (conv_at (h @ news)) = Option.bind (map_of kvs k') (conv_at h)"
    proof (cases "map_of kvs k'")
      case None
      then show ?thesis by simp
    next
      case (Some a)
      then have "(k', a) \<in> set kvs" by (rule map_of_SomeD)
      with all have "conv_at h a \<noteq> None" by (auto simp: list_all_iff)
      with old Some show ?thesis by simp
    qed
  qed
  with state_at_new [OF all' c, of k] show ?thesis by simp
qed

lemma state_at_deleted:
  assumes all: "list_all (\<lambda>kv. conv_at h (snd kv) \<noteq> None) kvs"
  shows "state_at (h @ [MapObj (AList.delete k kvs)]) (length h) =
           Some ((\<lambda>k. Option.bind (map_of kvs k) (conv_at h))(k := None))"
proof -
  let ?h = "h @ [MapObj (AList.delete k kvs)]"
  have old: "conv_at h a \<noteq> None \<Longrightarrow> conv_at ?h a = conv_at h a" for a
    using conv_at_old [of h a] by auto
  have sub: "set (AList.delete k kvs) \<subseteq> set kvs" by (auto simp: AList.delete_eq)
  have all': "list_all (\<lambda>kv. conv_at ?h (snd kv) \<noteq> None) (AList.delete k kvs)"
  proof -
    have "conv_at ?h (snd kv) \<noteq> None" if "kv \<in> set (AList.delete k kvs)" for kv
    proof -
      from that sub have "kv \<in> set kvs" by auto
      with all obtain c where "conv_at h (snd kv) = Some c" by (auto simp: list_all_iff)
      then have "conv_at ?h (snd kv) = Some c" by (rule conv_at_old)
      then show ?thesis by simp
    qed
    then show ?thesis by (simp add: list_all_iff)
  qed
  have "Option.bind (map_of (AList.delete k kvs) k') (conv_at ?h) =
        ((\<lambda>k. Option.bind (map_of kvs k) (conv_at h))(k := None)) k'" for k'
  proof (cases "k' = k")
    case True
    then show ?thesis by (simp add: delete_conv')
  next
    case False
    show ?thesis
    proof (cases "map_of kvs k'")
      case None
      with False show ?thesis by (simp add: delete_conv')
    next
      case (Some a)
      then have "(k', a) \<in> set kvs" by (rule map_of_SomeD)
      with all have "conv_at h a \<noteq> None" by (auto simp: list_all_iff)
      with old Some False show ?thesis by (simp add: delete_conv')
    qed
  qed
  then have "(\<lambda>k'. Option.bind (map_of (AList.delete k kvs) k') (conv_at ?h)) =
        (\<lambda>k. Option.bind (map_of kvs k) (conv_at h))(k := None)" by (intro ext)
  with all' show ?thesis by (simp add: state_at_def lookup_append)
qed

lemma storesI:
  "reducer_on_heap env h st act =
          Some (Inr (length h + length news),
                h @ news @ [MapObj (AList.update (written_key env act) ca kvs)]) \<Longrightarrow>
   conv_at (h @ news) ca = Some c \<Longrightarrow>
   conversationReducer env s act = Inr (s(written_key env act \<mapsto> c)) \<Longrightarrow>
   stores env h st kvs s act"
  unfolding stores_def by blast

lemma on_entry:
  assumes st: "lookup h st = Some (MapObj kvs)"
    and all: "list_all (\<lambda>kv. conv_at h (snd kv) \<noteq> None) kvs"
    and s: "s = (\<lambda>k. Option.bind (map_of kvs k) (conv_at h))"
    and e: "map_of kvs cid = Some ca"
  obtains i ma md sa ms m ps where
    "lookup h ca = Some (ConvObj i ma md sa)" "lookup h ma = Some (ArrayObj ms)"
    "lookup h md = Some (MetaObj m)" "lookup h sa = Some (SetObj ps)"
    "ca < length h" "ma < length h" "md < length h" "sa < length h" "st < length h"
    "s cid = Some \<lparr>c_id = i, messages = ms, metadata = m, activeProviders = ps\<rparr>"
proof -
  from e have "(cid, ca) \<in> set kvs" by (rule map_of_SomeD)
  with all obtain c where c: "conv_at h ca = Some c" by (auto simp: list_all_iff)
  from conv_at_lookups [OF c] obtain ma md sa where
    l: "lookup h ca = Some (ConvObj (c_id c) ma md sa)" "lookup h ma = Some (ArrayObj (messages c))"
       "lookup h md = Some (MetaObj (metadata c))" "lookup h sa = Some (SetObj (activeProviders c))"
    by blast
  have "s cid = Some \<lparr>c_id = c_id c, messages = messages c, metadata = metadata c,
                      activeProviders = activeProviders c\<rparr>"
    using s e c by simp
  with l lookup_SomeD [OF l(1)] lookup_SomeD [OF l(2)] lookup_SomeD [OF l(3)] lookup_SomeD [OF l(4)]
    lookup_SomeD [OF st]
  show ?thesis by (rule that)
qed

lemma ADD_PROVIDER_ends:
  assumes st: "lookup h st = Some (MapObj kvs)"
    and all: "list_all (\<lambda>kv. conv_at h (snd kv) \<noteq> None) kvs"
    and s: "s = (\<lambda>k. Option.bind (map_of kvs k) (conv_at h))"
  shows "throws env h st s (ADD_PROVIDER cid p) \<or> stores env h st kvs s (ADD_PROVIDER cid p)"
proof (cases "map_of kvs cid")
  case None
  with st s show ?thesis by (simp add: throws_def Map_get_def)
next
  case (Some ca)
  from st all s Some obtain i ma md sa ms m ps where
    l: "lookup h ca = Some (ConvObj i ma md sa)" "lookup h ma = Some (ArrayObj ms)"
       "lookup h md = Some (MetaObj m)" "lookup h sa = Some (SetObj ps)"
    and b: "ca < length h" "ma < length h" "md < length h" "sa < length h" "st < length h"
    and c: "s cid = Some \<lparr>c_id = i, messages = ms, metadata = m, activeProviders = ps\<rparr>"
    by (rule on_entry)
  let ?news = "[SetObj (insert p ps), MetaObj (m\<lparr>updatedAt := date1 env\<rparr>),
                ConvObj i ma (length h + 1) (length h)]"
  have "stores env h st kvs s (ADD_PROVIDER cid p)"
  proof (rule storesI [where news = ?news and ca = "length h + 2"])
    show "reducer_on_heap env h st (ADD_PROVIDER cid p) =
            Some (Inr (length h + length ?news),
                  h @ ?news @ [MapObj (AList.update (written_key env (ADD_PROVIDER cid p)) (length h + 2) kvs)])"
      using st Some l b by (simp add: heap_ops lookup_append list_update_append)
    show "conv_at (h @ ?news) (length h + 2) =
            Some \<lparr>c_id = i, messages = ms, metadata = m\<lparr>updatedAt := date1 env\<rparr>,
                  activeProviders = insert p ps\<rparr>"
      using l b by (simp add: conv_at_def heap_ops lookup_append)
    show "conversationReducer env s (ADD_PROVIDER cid p) =
            Inr (s(written_key env (ADD_PROVIDER cid p) \<mapsto>
               \<lparr>c_id = i, messages = ms, metadata = m\<lparr>updatedAt := date1 env\<rparr>,
                  activeProviders = insert p ps\<rparr>))"
      using c by simp
  qed
  then show ?thesis ..
qed

lemma DELETE_ends:
  assumes st: "lookup h st = Some (MapObj kvs)"
  shows "deletes env h st kvs s (DELETE_CONVERSATION cid)"
  using st lookup_SomeD [OF st]
  by (simp add: deletes_def heap_ops lookup_append list_update_append numeral_3_eq_3)

lemma not_found_throws:
  assumes st: "lookup h st = Some (MapObj kvs)"
    and s: "s = (\<lambda>k. Option.bind (map_of kvs k) (conv_at h))"
    and e: "map_of kvs cid = None"
  shows "throws env h st s (UPDATE_CONVERSATION cid u)" "throws env h st s (ADD_MESSAGE cid msg)"
    "throws env h st s (SET_METADATA cid pm)" "throws env h st s (ADD_PROVIDER cid p)"
    "throws env h st s (REMOVE_PROVIDER cid p)" "throws env h st s (CLEAR_HISTORY cid)"
  using assms by (simp_all add: throws_def Map_get_def)

lemma CREATE_ends:
  assumes st: "lookup h st = Some (MapObj kvs)"
  shows "stores env h st kvs s (CREATE_CONVERSATION payload)"
proof -
  define md0 where "md0 = spread_metadata_opt
       \<lparr>createdAt = date1 env, updatedAt = date1 env,
        title = or_str (Option.bind (co_metadata payload) pm_title) (''Conversation '' @ uuid1 env),
        description = or_str (Option.bind (co_metadata payload) pm_description) [],
        extension = Map.empty\<rparr>
       (co_metadata payload)"
  define ps0 where "ps0 = set (case co_providerIds payload of None \<Rightarrow> [] | Some ps \<Rightarrow> ps)"
  define msg where "msg =
       \<lparr>m_id = uuid2 env, m_role = User,
        m_content = Part \<lparr>part_type = ''text'',
                          part_text = Some (or_str (co_initialMessage payload) []), part_data = None\<rparr>,
        m_timestamp = date1 env,
        m_providerId = or_str (case co_providerIds payload of
                                 None \<Rightarrow> None | Some [] \<Rightarrow> None | Some (p # ps) \<Rightarrow> Some p) [],
        m_options = \<lparr>o_model = None, o_maxTokens = None, o_temperature = None,
                     o_topProbability = None, o_topKTokens = None, o_systemMessage = None\<rparr>\<rparr>"
  define msgs where "msgs = (if or_str (co_initialMessage payload) [] \<noteq> [] then [msg] else [])"
  let ?news = "[ArrayObj msgs, MetaObj md0, SetObj ps0,
                ConvObj (uuid1 env) (length h) (length h + 1) (length h + 2)]"
  note b = lookup_SomeD [OF st]
  show ?thesis
  proof (rule storesI [where news = ?news and ca = "length h + 3"])
    show "reducer_on_heap env h st (CREATE_CONVERSATION payload) =
            Some (Inr (length h + length ?news),
                  h @ ?news @ [MapObj (AList.update (written_key env (CREATE_CONVERSATION payload))
                                         (length h + 3) kvs)])"
      using st b
      by (cases "or_str (co_initialMessage payload) [] = []";
          simp add: heap_ops lookup_append list_update_append numeral_3_eq_3 Let_def md0_def ps0_def msg_def msgs_def)
    show "conv_at (h @ ?news) (length h + 3) =
            Some \<lparr>c_id = uuid1 env, messages = msgs, metadata = md0, activeProviders = ps0\<rparr>"
      by (simp add: conv_at_def heap_ops lookup_append)
    show "conversationReducer env s (CREATE_CONVERSATION payload) =
            Inr (s(written_key env (CREATE_CONVERSATION payload) \<mapsto>
               \<lparr>c_id = uuid1 env, messages = msgs, metadata = md0, activeProviders = ps0\<rparr>))"
      by (cases "or_str (co_initialMessage payload) [] = []";
          simp add: Let_def md0_def ps0_def msg_def msgs_def)
  qed
qed

lemma UPDATE_ends:
  assumes st: "lookup h st = Some (MapObj kvs)"
    and all: "list_all (\<lambda>kv. conv_at h (snd kv) \<noteq> None) kvs"
    and s: "s = (\<lambda>k. Option.bind (map_of kvs k) (conv_at h))"
  shows "throws env h st s (UPDATE_CONVERSATION cid u) \<or> stores env h st kvs s (UPDATE_CONVERSATION cid u)"
proof (cases "map_of kvs cid")
  case None
  with st s show ?thesis by (simp add: not_found_throws)
next
  case (Some ca)
  from st all s Some obtain i ma md sa ms m ps where
    l: "lookup h ca = Some (ConvObj i ma md sa)" "lookup h ma = Some (ArrayObj ms)"
       "lookup h md = Some (MetaObj m)" "lookup h sa = Some (SetObj ps)"
    and b: "ca < length h" "ma < length h" "md < length h" "sa < length h" "st < length h"
    and c: "s cid = Some \<lparr>c_id = i, messages = ms, metadata = m, activeProviders = ps\<rparr>"
    by (rule on_entry)
  define m' where "m' = (spread_metadata_opt m (u_metadata u))\<lparr>updatedAt := date1 env\<rparr>"
  define i' where "i' = (case u_id u of None \<Rightarrow> i | Some j \<Rightarrow> j)"
  define c' where "c' = \<lparr>c_id = i',
      messages = (case u_messages u of None \<Rightarrow> ms | Some x \<Rightarrow> x), metadata = m',
      activeProviders = (case u_activeProviders u of None \<Rightarrow> ps | Some x \<Rightarrow> x)\<rparr>"
  have val: "conversationReducer env s (UPDATE_CONVERSATION cid u) =
            Inr (s(written_key env (UPDATE_CONVERSATION cid u) \<mapsto> c'))"
    using c by (simp add: c'_def m'_def i'_def cong: option.case_cong)
  have "stores env h st kvs s (UPDATE_CONVERSATION cid u)"
  proof (cases "u_messages u")
    case None
    note um = this
    show ?thesis
    proof (cases "u_activeProviders u")
      case None
      let ?news = "[MetaObj m', ConvObj i' ma (length h) sa]"
      show ?thesis
      proof (rule storesI [where news = ?news and ca = "length h + 1", OF _ _ val])
        show "reducer_on_heap env h st (UPDATE_CONVERSATION cid u) =
            Some (Inr (length h + length ?news),
                  h @ ?news @ [MapObj (AList.update (written_key env (UPDATE_CONVERSATION cid u))
                                         (length h + 1) kvs)])"
          using st Some l b um None
          by (simp add: heap_ops lookup_append list_update_append numeral_3_eq_3 m'_def i'_def)
        show "conv_at (h @ ?news) (length h + 1) = Some c'"
          using l b um None by (simp add: conv_at_def heap_ops lookup_append c'_def)
      qed
    next
      case (Some px)
      let ?news = "[SetObj px, MetaObj m', ConvObj i' ma (length h + 1) (length h)]"
      show ?thesis
      proof (rule storesI [where news = ?news and ca = "length h + 2", OF _ _ val])
        show "reducer_on_heap env h st (UPDATE_CONVERSATION cid u) =
            Some (Inr (length h + length ?news),
                  h @ ?news @ [MapObj (AList.update (written_key env (UPDATE_CONVERSATION cid u))
                                         (length h + 2) kvs)])"
          using st \<open>map_of kvs cid = Some ca\<close> l b um Some
          by (simp add: heap_ops lookup_append list_update_append numeral_3_eq_3 m'_def i'_def)
        show "conv_at (h @ ?news) (length h + 2) = Some c'"
          using l b um Some by (simp add: conv_at_def heap_ops lookup_append c'_def)
      qed
    qed
  next
    case (Some msx)
    note um = this
    show ?thesis
    proof (cases "u_activeProviders u")
      case None
      let ?news = "[ArrayObj msx, MetaObj m', ConvObj i' (length h) (length h + 1) sa]"
      show ?thesis
      proof (rule storesI [where news = ?news and ca = "length h + 2", OF _ _ val])
        show "reducer_on_heap env h st (UPDATE_CONVERSATION cid u) =
            Some (Inr (length h + length ?news),
                  h @ ?news @ [MapObj (AList.update (written_key env (UPDATE_CONVERSATION cid u))
                                         (length h + 2) kvs)])"
          using st \<open>map_of kvs cid = Some ca\<close> l b um None
          by (simp add: heap_ops lookup_append list_update_append numeral_3_eq_3 m'_def i'_def)
        show "conv_at (h @ ?news) (length h + 2) = Some c'"
          using l b um None by (simp add: conv_at_def heap_ops lookup_append c'_def)
      qed
    next
      case (Some px)
      let ?news = "[ArrayObj msx, SetObj px, MetaObj m',
                    ConvObj i' (length h) (length h + 2) (length h + 1)]"
      show ?thesis
      proof (rule storesI [where news = ?news and ca = "length h + 3", OF _ _ val])
        show "reducer_on_heap env h st (UPDATE_CONVERSATION cid u) =
            Some (Inr (length h + length ?news),
                  h @ ?news @ [MapObj (AList.update (written_key env (UPDATE_CONVERSATION cid u))
                                         (length h + 3) kvs)])"
          using st \<open>map_of kvs cid = Some ca\<close> l b um Some
          by (simp add: heap_ops lookup_append list_update_append numeral_3_eq_3 m'_def i'_def)
        show "conv_at (h @ ?news) (length h + 3) = Some c'"
          using l b um Some by (simp add: conv_at_def heap_ops lookup_append c'_def)
      qed
    qed
  qed
  then show ?thesis ..
qed

lemma ADD_MESSAGE_ends:
  assumes st: "lookup h st = Some (MapObj kvs)"
    and all: "list_all (\<lambda>kv. conv_at h (snd kv) \<noteq> None) kvs"
    and s: "s = (\<lambda>k. Option.bind (map_of kvs k) (conv_at h))"
  shows "throws env h st s (ADD_MESSAGE cid msg) \<or> stores env h st kvs s (ADD_MESSAGE cid msg)"
proof (cases "map_of kvs cid")
  case None
  with st s show ?thesis by (simp add: not_found_throws)
next
  case (Some ca)
  from st all s Some obtain i ma md sa ms m ps where
    l: "lookup h ca = Some (ConvObj i ma md sa)" "lookup h ma = Some (ArrayObj ms)"
       "lookup h md = Some (MetaObj m)" "lookup h sa = Some (SetObj ps)"
    and b: "ca < length h" "ma < length h" "md < length h" "sa < length h" "st < length h"
    and c: "s cid = Some \<lparr>c_id = i, messages = ms, metadata = m, activeProviders = ps\<rparr>"
    by (rule on_entry)
  define ms' where "ms' = ms @
       [\<lparr>m_id = uuid1 env, m_role = nm_role msg, m_content = nm_content msg,
         m_timestamp = date1 env, m_providerId = nm_providerId msg, m_options = nm_options msg\<rparr>]"
  let ?news = "[ArrayObj ms', SetObj (insert (nm_providerId msg) ps),
                MetaObj (m\<lparr>updatedAt := date2 env\<rparr>),
                ConvObj i (length h) (length h + 2) (length h + 1)]"
  let ?c = "\<lparr>c_id = i, messages = ms', metadata = m\<lparr>updatedAt := date2 env\<rparr>,
             activeProviders = insert (nm_providerId msg) ps\<rparr>"
  have "stores env h st kvs s (ADD_MESSAGE cid msg)"
  proof (rule storesI [where news = ?news and ca = "length h + 3" and c = ?c])
    show "reducer_on_heap env h st (ADD_MESSAGE cid msg) =
            Some (Inr (length h + length ?news),
                  h @ ?news @ [MapObj (AList.update (written_key env (ADD_MESSAGE cid msg))
                                         (length h + 3) kvs)])"
      using st Some l b
      by (simp add: heap_ops lookup_append list_update_append numeral_3_eq_3 ms'_def)
    show "conv_at (h @ ?news) (length h + 3) = Some ?c"
      using l b by (simp add: conv_at_def heap_ops lookup_append)
    show "conversationReducer env s (ADD_MESSAGE cid msg) =
            Inr (s(written_key env (ADD_MESSAGE cid msg) \<mapsto> ?c))"
      using c by (simp add: Let_def ms'_def)
  qed
  then show ?thesis ..
qed

lemma SET_METADATA_ends:
  assumes st: "lookup h st = Some (MapObj kvs)"
    and all: "list_all (\<lambda>kv. conv_at h (snd kv) \<noteq> None) kvs"
    and s: "s = (\<lambda>k. Option.bind (map_of kvs k) (conv_at h))"
  shows "throws env h st s (SET_METADATA cid pm) \<or> stores env h st kvs s (SET_METADATA cid pm)"
proof (cases "map_of kvs cid")
  case None
  with st s show ?thesis by (simp add: not_found_throws)
next
  case (Some ca)
  from st all s Some obtain i ma md sa ms m ps where
    l: "lookup h ca = Some (ConvObj i ma md sa)" "lookup h ma = Some (ArrayObj ms)"
       "lookup h md = Some (MetaObj m)" "lookup h sa = Some (SetObj ps)"
    and b: "ca < length h" "ma < length h" "md < length h" "sa < length h" "st < length h"
    and c: "s cid = Some \<lparr>c_id = i, messages = ms, metadata = m, activeProviders = ps\<rparr>"
    by (rule on_entry)
  let ?m = "(spread_metadata m pm)\<lparr>updatedAt := date1 env\<rparr>"
  let ?news = "[MetaObj ?m, ConvObj i ma (length h) sa]"
  let ?c = "\<lparr>c_id = i, messages = ms, metadata = ?m, activeProviders = ps\<rparr>"
  have "stores env h st kvs s (SET_METADATA cid pm)"
  proof (rule storesI [where news = ?news and ca = "length h + 1" and c = ?c])
    show "reducer_on_heap env h st (SET_METADATA cid pm) =
            Some (Inr (length h + length ?news),
                  h @ ?news @ [MapObj (AList.update (written_key env (SET_METADATA cid pm))
                                         (length h + 1) kvs)])"
      using st Some l b by (simp add: heap_ops lookup_append list_update_append)
    show "conv_at (h @ ?news) (length h + 1) = Some ?c"
      using l b by (simp add: conv_at_def heap_ops lookup_append)
    show "conversationReducer env s (SET_METADATA cid pm) =
            Inr (s(written_key env (SET_METADATA cid pm) \<mapsto> ?c))"
      using c by simp
  qed
  then show ?thesis ..
qed

lemma REMOVE_PROVIDER_ends:
  assumes st: "lookup h st = Some (MapObj kvs)"
    and all: "list_all (\<lambda>kv. conv_at h (snd kv) \<noteq> None) kvs"
    and s: "s = (\<lambda>k. Option.bind (map_of kvs k) (conv_at h))"
  shows "throws env h st s (REMOVE_PROVIDER cid p) \<or> stores env h st kvs s (REMOVE_PROVIDER cid p)"
proof (cases "map_of kvs cid")
  case None
  with st s show ?thesis by (simp add: not_found_throws)
next
  case (Some ca)
  from st all s Some obtain i ma md sa ms m ps where
    l: "lookup h ca = Some (ConvObj i ma md sa)" "lookup h ma = Some (ArrayObj ms)"
       "lookup h md = Some (MetaObj m)" "lookup h sa = Some (SetObj ps)"
    and b: "ca < length h" "ma < length h" "md < length h" "sa < length h" "st < length h"
    and c: "s cid = Some \<lparr>c_id = i, messages = ms, metadata = m, activeProviders = ps\<rparr>"
    by (rule on_entry)
  show ?thesis
  proof (cases "p \<in> ps")
    case False
    then have "throws env h st s (REMOVE_PROVIDER cid p)"
      using st Some l b c by (simp add: throws_def heap_ops)
    then show ?thesis ..
  next
    case True
    let ?news = "[SetObj (ps - {p}), MetaObj (m\<lparr>updatedAt := date1 env\<rparr>),
                  ConvObj i ma (length h + 1) (length h)]"
    let ?c = "\<lparr>c_id = i, messages = ms, metadata = m\<lparr>updatedAt := date1 env\<rparr>,
               activeProviders = ps - {p}\<rparr>"
    have "stores env h st kvs s (REMOVE_PROVIDER cid p)"
    proof (rule storesI [where news = ?news and ca = "length h + 2" and c = ?c])
      show "reducer_on_heap env h st (REMOVE_PROVIDER cid p) =
              Some (Inr (length h + length ?news),
                    h @ ?news @ [MapObj (AList.update (written_key env (REMOVE_PROVIDER cid p))
                                           (length h + 2) kvs)])"
        using st Some l b True by (simp add: heap_ops lookup_append list_update_append)
      show "conv_at (h @ ?news) (length h + 2) = Some ?c"
        using l b by (simp add: conv_at_def heap_ops lookup_append)
      show "conversationReducer env s (REMOVE_PROVIDER cid p) =
              Inr (s(written_key env (REMOVE_PROVIDER cid p) \<mapsto> ?c))"
        using c True by simp
    qed
    then show ?thesis ..
  qed
qed

lemma CLEAR_HISTORY_ends:
  assumes st: "lookup h st = Some (MapObj kvs)"
    and all: "list_all (\<lambda>kv. conv_at h (snd kv) \<noteq> None) kvs"
    and s: "s = (\<lambda>k. Option.bind (map_of kvs k) (conv_at h))"
  shows "throws env h st s (CLEAR_HISTORY cid) \<or> stores env h st kvs s (CLEAR_HISTORY cid)"
proof (cases "map_of kvs cid")
  case None
  with st s show ?thesis by (simp add: not_found_throws)
next
  case (Some ca)
  from st all s Some obtain i ma md sa ms m ps where
    l: "lookup h ca = Some (ConvObj i ma md sa)" "lookup h ma = Some (ArrayObj ms)"
       "lookup h md = Some (MetaObj m)" "lookup h sa = Some (SetObj ps)"
    and b: "ca < length h" "ma < length h" "md < length h" "sa < length h" "st < length h"
    and c: "s cid = Some \<lparr>c_id = i, messages = ms, metadata = m, activeProviders = ps\<rparr>"
    by (rule on_entry)
  let ?news = "[ArrayObj [], MetaObj (m\<lparr>updatedAt := date1 env\<rparr>),
                ConvObj i (length h) (length h + 1) sa]"
  let ?c = "\<lparr>c_id = i, messages = [], metadata = m\<lparr>updatedAt := date1 env\<rparr>,
             activeProviders = ps\<rparr>"
  have "stores env h st kvs s (CLEAR_HISTORY cid)"
  proof (rule storesI [where news = ?news and ca = "length h + 2" and c = ?c])
    show "reducer_on_heap env h st (CLEAR_HISTORY cid) =
            Some (Inr (length h + length ?news),
                  h @ ?news @ [MapObj (AList.update (written_key env (CLEAR_HISTORY cid))
                                         (length h + 2) kvs)])"
      using st Some l b by (simp add: heap_ops lookup_append list_update_append)
    show "conv_at (h @ ?news) (length h + 2) = Some ?c"
      using l b by (simp add: conv_at_def heap_ops lookup_append)
    show "conversationReducer env s (CLEAR_HISTORY cid) =
            Inr (s(written_key env (CLEAR_HISTORY cid) \<mapsto> ?c))"
      using c by simp
  qed
  then show ?thesis ..
qed

lemma IMPORT_ends:
  assumes st: "lookup h st = Some (MapObj kvs)"
  shows "throws env h st s (IMPORT_CONVERSATION payload) \<or>
         stores env h st kvs s (IMPORT_CONVERSATION payload)"
proof (cases "JSON_parse env payload")
  case (Inl e)
  then show ?thesis by (simp add: throws_def)
next
  case (Inr v)
  note parsed = this
  show ?thesis
  proof (cases "isValidConversation v")
    case (Inl e)
    with parsed show ?thesis by (simp add: throws_def)
  next
    case (Inr valid)
    show ?thesis
    proof (cases valid)
      case False
      with parsed Inr show ?thesis by (simp add: throws_def)
    next
      case True
      define c where "c = as_Conversation env v"
      let ?news = "[ArrayObj (messages c), MetaObj (metadata c), SetObj (activeProviders c),
                    ConvObj (c_id c) (length h) (length h + 1) (length h + 2)]"
      note b = lookup_SomeD [OF st]
      have "stores env h st kvs s (IMPORT_CONVERSATION payload)"
      proof (rule storesI [where news = ?news and ca = "length h + 3" and c = c])
        show "reducer_on_heap env h st (IMPORT_CONVERSATION payload) =
                Some (Inr (length h + length ?news),
                      h @ ?news @ [MapObj (AList.update (written_key env (IMPORT_CONVERSATION payload))
                                             (length h + 3) kvs)])"
          using st b parsed Inr True
          by (simp add: heap_ops lookup_append list_update_append numeral_3_eq_3 c_def Let_def)
        show "conv_at (h @ ?news) (length h + 3) = Some c"
          by (simp add: conv_at_def heap_ops lookup_append)
        show "conversationReducer env s (IMPORT_CONVERSATION payload) =
                Inr (s(written_key env (IMPORT_CONVERSATION payload) \<mapsto> c))"
          using parsed Inr True by (simp add: c_def)
      qed
      then show ?thesis ..
    qed
  qed
qed

text \<open>Every call on a store ends in one of the three ways.\<close>

lemma reducer_on_heap_ends:
  assumes st: "lookup h st = Some (MapObj kvs)"
    and all: "list_all (\<lambda>kv. conv_at h (snd kv) \<noteq> None) kvs"
    and s: "s = (\<lambda>k. Option.bind (map_of kvs k) (conv_at h))"
  shows "throws env h st s act \<or> stores env h st kvs s act \<or> deletes env h st kvs s act"
proof (cases act)
  case (CREATE_CONVERSATION payload)
  with CREATE_ends [OF st] show ?thesis by blast
next
  case (UPDATE_CONVERSATION cid u)
  with UPDATE_ends [OF assms] show ?thesis by blast
next
  case (DELETE_CONVERSATION cid)
  with DELETE_ends [OF st] show ?thesis by blast
next
  case (ADD_MESSAGE cid msg)
  with ADD_MESSAGE_ends [OF assms] show ?thesis by blast
next
  case (SET_METADATA cid pm)
  with SET_METADATA_ends [OF assms] show ?thesis by blast
next
  case (ADD_PROVIDER cid p)
  with ADD_PROVIDER_ends [OF assms] show ?thesis by blast
next
  case (REMOVE_PROVIDER cid p)
  with REMOVE_PROVIDER_ends [OF assms] show ?thesis by blast
next
  case (CLEAR_HISTORY cid)
  with CLEAR_HISTORY_ends [OF assms] show ?thesis by blast
next
  case (IMPORT_CONVERSATION payload)
  with IMPORT_ends [OF st] show ?thesis by blast
qed

lemma state_at_old:
  assumes "state_at h st = Some s"
  shows "state_at (h @ xs) st = Some s"
proof -
  from state_atD [OF assms] obtain kvs where
    st: "lookup h st = Some (MapObj kvs)" and all: "list_all (\<lambda>kv. conv_at h (snd kv) \<noteq> None) kvs"
    and s: "s = (\<lambda>k. Option.bind (map_of kvs k) (conv_at h))" by blast
  have same: "conv_at (h @ xs) a = conv_at h a" if "(k, a) \<in> set kvs" for k a
  proof -
    from that all obtain c where "conv_at h a = Some c" by (auto simp: list_all_iff)
    then show ?thesis by (simp add: conv_at_old)
  qed
  have all': "list_all (\<lambda>kv. conv_at (h @ xs) (snd kv) \<noteq> None) kvs"
  proof -
    have "conv_at (h @ xs) (snd kv) \<noteq> None" if "kv \<in> set kvs" for kv
    proof -
      from that all obtain c where "conv_at h (snd kv) = Some c" by (auto simp: list_all_iff)
      then have "conv_at (h @ xs) (snd kv) = Some c" by (rule conv_at_old)
      then show ?thesis by simp
    qed
    then show ?thesis by (simp add: list_all_iff)
  qed
  have "(\<lambda>k. Option.bind (map_of kvs k) (conv_at (h @ xs))) = s"
  proof
    fix k
    show "Option.bind (map_of kvs k) (conv_at (h @ xs)) = s k"
    proof (cases "map_of kvs k")
      case None
      then show ?thesis by (simp add: s)
    next
      case (Some a)
      then have "(k, a) \<in> set kvs" by (rule map_of_SomeD)
      with same Some show ?thesis by (simp add: s)
    qed
  qed
  with all' lookup_old [OF st] show ?thesis by (simp add: state_at_def)
qed

lemma entry_ref_stored:
  "k \<noteq> w \<Longrightarrow> lookup h st = Some (MapObj kvs) \<Longrightarrow>
   entry_ref (h @ news @ [MapObj (AList.update w ca kvs)]) (length h + length news) k = entry_ref h st k"
  by (simp add: entry_ref_def Map_get_def lookup_append update_conv')

lemma entry_ref_deleted:
  "k \<noteq> w \<Longrightarrow> lookup h st = Some (MapObj kvs) \<Longrightarrow>
   entry_ref (h @ [MapObj (AList.delete w kvs)]) (length h) k = entry_ref h st k"
  by (simp add: entry_ref_def Map_get_def lookup_append delete_conv')

lemma reducer_on_heap_pure:
  assumes wf: "state_at h st = Some s"
  shows "pure_call env h st s act"
proof -
  from state_atD [OF wf] obtain kvs where
    st: "lookup h st = Some (MapObj kvs)" and all: "list_all (\<lambda>kv. conv_at h (snd kv) \<noteq> None) kvs"
    and s: "s = (\<lambda>k. Option.bind (map_of kvs k) (conv_at h))" by blast
  from reducer_on_heap_ends [OF st all s, of env act]
  consider (t) "throws env h st s act" | (s) "stores env h st kvs s act" | (d) "deletes env h st kvs s act"
    by blast
  then show ?thesis
  proof cases
    case t
    then obtain e where e: "reducer_on_heap env h st act = Some (Inl e, h)"
      "conversationReducer env s act = Inl e" by (auto simp: throws_def)
    show ?thesis unfolding pure_call_def
    proof (intro exI [of _ "Inl e"] exI [of _ "[]"] conjI)
      show "reducer_on_heap env h st act = Some (Inl e, h @ [])" using e by simp
      show "outcome (Some (Inl e, h @ [])) = Some (conversationReducer env s act)"
        using e by (simp add: outcome_def)
      show "state_at (h @ []) st = Some s" using wf by simp
      show "\<forall>a k. Inl e = Inr a \<and> k \<noteq> written_key env act \<longrightarrow>
              entry_ref (h @ []) a k = entry_ref h st k" by simp
    qed
  next
    case s
    then obtain news ca c where r: "reducer_on_heap env h st act =
          Some (Inr (length h + length news),
                h @ news @ [MapObj (AList.update (written_key env act) ca kvs)])"
      and c: "conv_at (h @ news) ca = Some c"
      and v: "conversationReducer env s act = Inr (s(written_key env act \<mapsto> c))"
      by (auto simp: stores_def)
    let ?news = "news @ [MapObj (AList.update (written_key env act) ca kvs)]"
    show ?thesis unfolding pure_call_def
    proof (intro exI [of _ "Inr (length h + length news)"] exI [of _ ?news] conjI)
      show "reducer_on_heap env h st act = Some (Inr (length h + length news), h @ ?news)"
        using r by simp
      show "outcome (Some (Inr (length h + length news), h @ ?news)) =
              Some (conversationReducer env s act)"
        using state_at_stored [OF all c, of "written_key env act"] v
        by (simp add: outcome_def \<open>s = _\<close>)
      show "state_at (h @ ?news) st = Some s" using wf by (rule state_at_old)
      show "\<forall>a k. Inr (length h + length news) = Inr a \<and> k \<noteq> written_key env act \<longrightarrow>
              entry_ref (h @ ?news) a k = entry_ref h st k"
        using entry_ref_stored [OF _ st] by auto
    qed
  next
    case d
    then have r: "reducer_on_heap env h st act =
          Some (Inr (length h), h @ [MapObj (AList.delete (written_key env act) kvs)])"
      and v: "conversationReducer env s act = Inr (s(written_key env act := None))"
      by (auto simp: deletes_def)
    let ?news = "[MapObj (AList.delete (written_key env act) kvs)]"
    show ?thesis unfolding pure_call_def
    proof (intro exI [of _ "Inr (length h)"] exI [of _ ?news] conjI)
      show "reducer_on_heap env h st act = Some (Inr (length h), h @ ?news)" using r by simp
      show "outcome (Some (Inr (length h), h @ ?news)) = Some (conversationReducer env s act)"
        using state_at_deleted [OF all, of "written_key env act"] v
        by (simp add: outcome_def \<open>s = _\<close>)
      show "state_at (h @ ?news) st = Some s" using wf by (rule state_at_old)
      show "\<forall>a k. Inr (length h) = Inr a \<and> k \<noteq> written_key env act \<longrightarrow>
              entry_ref (h @ ?news) a k = entry_ref h st k"
        using entry_ref_deleted [OF _ st] by auto
    qed
  qed
qed

text \<open>
  C3, amended. For every action and two stores that stand for the same mapping: under the
  same readings of the clock, of the id generator and of the parser, the two calls have
  the same outcome, the one the reducer has on that mapping (the same exception, or equal
  mappings). A call only adds objects to the heap: every object that was there is as it
  was, the \<open>Map\<close> passed in stands for the mapping it stood for, and every entry of the
  returned \<open>Map\<close> other than the written one is the conversation object the input held
  under that key.
\<close>

theorem reducer_pure_given_environment:
  assumes "state_at h1 st1 = Some s" and "state_at h2 st2 = Some s"
  shows "outcome (reducer_on_heap env h1 st1 act) = Some (conversationReducer env s act) \<and>
         outcome (reducer_on_heap env h2 st2 act) = outcome (reducer_on_heap env h1 st1 act) \<and>
         (\<exists>res news.
            reducer_on_heap env h1 st1 act = Some (res, h1 @ news) \<and>
            state_at (h1 @ news) st1 = Some s \<and>
            (\<forall>a k. res = Inr a \<and> k \<noteq> written_key env act \<longrightarrow>
               entry_ref (h1 @ news) a k = entry_ref h1 st1 k))"
proof -
  have sim: "outcome (reducer_on_heap env h st act) = Some (conversationReducer env s act)"
    if "state_at h st = Some s" for h st
    using reducer_on_heap_pure [OF that, of env act] by (auto simp: pure_call_def)
  have "\<exists>res news.
            reducer_on_heap env h1 st1 act = Some (res, h1 @ news) \<and>
            state_at (h1 @ news) st1 = Some s \<and>
            (\<forall>a k. res = Inr a \<and> k \<noteq> written_key env act \<longrightarrow>
               entry_ref (h1 @ news) a k = entry_ref h1 st1 k)"
    using reducer_on_heap_pure [OF assms(1), of env act] unfolding pure_call_def by blast
  with sim [OF assms(1)] sim [OF assms(2)] show ?thesis by simp
qed

lemma not_found_on_heap:
  assumes wf: "state_at h st = Some s" and nf: "s cid = None"
  shows "reducer_on_heap env h st (UPDATE_CONVERSATION cid u) = Some (Inl (ConversationNotFoundError cid), h) \<and>
         reducer_on_heap env h st (ADD_MESSAGE cid msg) = Some (Inl (ConversationNotFoundError cid), h) \<and>
         reducer_on_heap env h st (SET_METADATA cid pm) = Some (Inl (ConversationNotFoundError cid), h) \<and>
         reducer_on_heap env h st (ADD_PROVIDER cid p) = Some (Inl (ConversationNotFoundError cid), h) \<and>
         reducer_on_heap env h st (REMOVE_PROVIDER cid p) = Some (Inl (ConversationNotFoundError cid), h) \<and>
         reducer_on_heap env h st (CLEAR_HISTORY cid) = Some (Inl (ConversationNotFoundError cid), h)"
proof -
  from state_atD [OF wf] obtain kvs where
    st: "lookup h st = Some (MapObj kvs)" and all: "list_all (\<lambda>kv. conv_at h (snd kv) \<noteq> None) kvs"
    and s: "s = (\<lambda>k. Option.bind (map_of kvs k) (conv_at h))" by blast
  have "map_of kvs cid = None"
  proof (cases "map_of kvs cid")
    case None
    then show ?thesis .
  next
    case (Some a)
    then have "(cid, a) \<in> set kvs" by (rule map_of_SomeD)
    with all obtain c where "conv_at h a = Some c" by (auto simp: list_all_iff)
    with Some s nf show ?thesis by simp
  qed
  with st show ?thesis by (simp add: Map_get_def)
qed

lemma heap0_convs:
  "conv_at heap0 4 = Some demo_conversation" "conv_at heap0 8 = Some (empty_conversation ''c0'')"
  by (simp_all add: conv_at_def heap_ops lookup_def heap0_def demo_conversation_def
      empty_conversation_def)

lemma heap0_store: "state_at heap0 0 = Some two_conversations"
proof -
  have "(\<lambda>k. Option.bind (map_of [(''u1'', 4), (''c0'', 8)] k) (conv_at heap0)) = two_conversations"
    using heap0_convs by (auto simp: fun_eq_iff two_conversations_def)
  moreover have "lookup heap0 0 = Some (MapObj [(''u1'', 4), (''c0'', 8)])"
    by (simp add: lookup_def heap0_def)
  ultimately show ?thesis using heap0_convs by (simp add: state_at_def)
qed

lemma heap1_convs:
  "conv_at heap1 7 = Some demo_conversation" "conv_at heap1 3 = Some (empty_conversation ''c0'')"
  by (simp_all add: conv_at_def heap_ops lookup_def heap1_def demo_conversation_def
      empty_conversation_def)

lemma heap1_store: "state_at heap1 8 = Some two_conversations"
proof -
  have "(\<lambda>k. Option.bind (map_of [(''c0'', 3), (''u1'', 7)] k) (conv_at heap1)) = two_conversations"
    using heap1_convs by (auto simp: fun_eq_iff two_conversations_def)
  moreover have "lookup heap1 8 = Some (MapObj [(''c0'', 3), (''u1'', 7)])"
    by (simp add: lookup_def heap1_def)
  ultimately show ?thesis using heap1_convs by (simp add: state_at_def)
qed

lemma heap0_add_message:
  "\<exists>a news. reducer_on_heap sample_env heap0 0 (ADD_MESSAGE ''u1'' hi_message) = Some (Inr a, heap0 @ news) \<and>
      entry_ref (heap0 @ news) a ''c0'' = Some 8 \<and> entry_ref (heap0 @ news) a ''u1'' = Some 12"
  by (simp add: heap_ops lookup_def heap0_def entry_ref_def nth_append)

theorem reducer_pure_given_environment_witness:
  "state_at heap0 0 = Some two_conversations \<and>
   state_at heap1 8 = Some two_conversations \<and>
   outcome (reducer_on_heap sample_env heap0 0 (ADD_MESSAGE ''u1'' hi_message)) =
     Some (conversationReducer sample_env two_conversations (ADD_MESSAGE ''u1'' hi_message)) \<and>
   outcome (reducer_on_heap sample_env heap1 8 (ADD_MESSAGE ''u1'' hi_message)) =
     outcome (reducer_on_heap sample_env heap0 0 (ADD_MESSAGE ''u1'' hi_message)) \<and>
   (\<exists>res news.
      reducer_on_heap sample_env heap0 0 (ADD_MESSAGE ''u1'' hi_message) = Some (res, heap0 @ news) \<and>
      state_at (heap0 @ news) 0 = Some two_conversations \<and>
      (\<exists>a. res = Inr a \<and> entry_ref (heap0 @ news) a ''c0'' = entry_ref heap0 0 ''c0'')) \<and>
   entry_ref heap0 0 ''c0'' = Some 8"
proof -
  from reducer_pure_given_environment
    [OF heap0_store heap1_store, of sample_env "ADD_MESSAGE ''u1'' hi_message"]
  obtain res news where
    o: "outcome (reducer_on_heap sample_env heap0 0 (ADD_MESSAGE ''u1'' hi_message)) =
          Some (conversationReducer sample_env two_conversations (ADD_MESSAGE ''u1'' hi_message))"
       "outcome (reducer_on_heap sample_env heap1 8 (ADD_MESSAGE ''u1'' hi_message)) =
          outcome (reducer_on_heap sample_env heap0 0 (ADD_MESSAGE ''u1'' hi_message))"
    and r: "reducer_on_heap sample_env heap0 0 (ADD_MESSAGE ''u1'' hi_message) = Some (res, heap0 @ news)"
    and s: "state_at (heap0 @ news) 0 = Some two_conversations"
    and e: "\<forall>a k. res = Inr a \<and> k \<noteq> written_key sample_env (ADD_MESSAGE ''u1'' hi_message) \<longrightarrow>
               entry_ref (heap0 @ news) a k = entry_ref heap0 0 k"
    by blast
  from heap0_add_message r obtain a where a: "res = Inr a" by auto
  with e have "entry_ref (heap0 @ news) a ''c0'' = entry_ref heap0 0 ''c0''" by simp
  with r s a have "\<exists>res news.
      reducer_on_heap sample_env heap0 0 (ADD_MESSAGE ''u1'' hi_message) = Some (res, heap0 @ news) \<and>
      state_at (heap0 @ news) 0 = Some two_conversations \<and>
      (\<exists>a. res = Inr a \<and> entry_ref (heap0 @ news) a ''c0'' = entry_ref heap0 0 ''c0'')"
    by blast
  moreover have "entry_ref heap0 0 ''c0'' = Some 8"
    by (simp add: entry_ref_def Map_get_def lookup_def heap0_def)
  ultimately show ?thesis using o heap0_store heap1_store by simp
qed

text \<open>
  C3, as stated: the same action on two structurally equal states yields structurally
  equal states. The reducer draws the ids of conversations and messages from \<open>uuidv4()\<close>
  and their times from \<open>new Date()\<close>: two creations on the empty mapping whose id
  generator answers differently store different conversations.
\<close>

theorem reducer_depends_on_environment:
  "conversationReducer sample_env Map.empty (CREATE_CONVERSATION demo) \<noteq>
   conversationReducer (sample_env\<lparr>uuid1 := ''u9''\<rparr>) Map.empty (CREATE_CONVERSATION demo)"
proof -
  have b: "conversationReducer (sample_env\<lparr>uuid1 := ''u9''\<rparr>) Map.empty (CREATE_CONVERSATION demo) =
             Inr [''u9'' \<mapsto> demo_conversation\<lparr>c_id := ''u9''\<rparr>]"
    by (simp add: sample_env_def demo_def demo_conversation_def no_metadata_def or_str_def
        spread_metadata_opt_def spread_metadata_def Let_def)
  have "[''u1'' \<mapsto> demo_conversation] \<noteq> [''u9'' \<mapsto> demo_conversation\<lparr>c_id := ''u9''\<rparr>]"
  proof
    assume "[''u1'' \<mapsto> demo_conversation] = [''u9'' \<mapsto> demo_conversation\<lparr>c_id := ''u9''\<rparr>]"
    then have "[''u1'' \<mapsto> demo_conversation] ''u9'' =
               [''u9'' \<mapsto> demo_conversation\<lparr>c_id := ''u9''\<rparr>] ''u9''" by (rule fun_cong)
    then show False by simp
  qed
  with create_demo b show ?thesis by simp
qed

section \<open>Actions on a conversation that is not stored\<close>

text \<open>
  C4. When the conversation id of an UPDATE_CONVERSATION, ADD_MESSAGE, SET_METADATA,
  ADD_PROVIDER, REMOVE_PROVIDER or CLEAR_HISTORY action is not in the mapping, the reducer
  throws ConversationNotFoundError for that id, whatever the payload; and on every store
  that stands for the mapping the call throws with the heap exactly as it was: the check
  comes before any object is made or written, so the input \<open>Map\<close> keeps its size and its
  contents.
\<close>

theorem conversationReducer_not_found:
  assumes "state cid = None"
  shows "conversationReducer env state (UPDATE_CONVERSATION cid updates) = Inl (ConversationNotFoundError cid) \<and>
         conversationReducer env state (ADD_MESSAGE cid msg) = Inl (ConversationNotFoundError cid) \<and>
         conversationReducer env state (SET_METADATA cid md) = Inl (ConversationNotFoundError cid) \<and>
         conversationReducer env state (ADD_PROVIDER cid providerId) = Inl (ConversationNotFoundError cid) \<and>
         conversationReducer env state (REMOVE_PROVIDER cid providerId) = Inl (ConversationNotFoundError cid) \<and>
         conversationReducer env state (CLEAR_HISTORY cid) = Inl (ConversationNotFoundError cid) \<and>
         (\<forall>h st. state_at h st = Some state \<longrightarrow>
            reducer_on_heap env h st (UPDATE_CONVERSATION cid updates) = Some (Inl (ConversationNotFoundError cid), h) \<and>
            reducer_on_heap env h st (ADD_MESSAGE cid msg) = Some (Inl (ConversationNotFoundError cid), h) \<and>
            reducer_on_heap env h st (SET_METADATA cid md) = Some (Inl (ConversationNotFoundError cid), h) \<and>
            reducer_on_heap env h st (ADD_PROVIDER cid providerId) = Some (Inl (ConversationNotFoundError cid), h) \<and>
            reducer_on_heap env h st (REMOVE_PROVIDER cid providerId) = Some (Inl (ConversationNotFoundError cid), h) \<and>
            reducer_on_heap env h st (CLEAR_HISTORY cid) = Some (Inl (ConversationNotFoundError cid), h))"
proof -
  have "conversationReducer env state (UPDATE_CONVERSATION cid updates) = Inl (ConversationNotFoundError cid) \<and>
         conversationReducer env state (ADD_MESSAGE cid msg) = Inl (ConversationNotFoundError cid) \<and>
         conversationReducer env state (SET_METADATA cid md) = Inl (ConversationNotFoundError cid) \<and>
         conversationReducer env state (ADD_PROVIDER cid providerId) = Inl (ConversationNotFoundError cid) \<and>
         conversationReducer env state (REMOVE_PROVIDER cid providerId) = Inl (ConversationNotFoundError cid) \<and>
         conversationReducer env state (CLEAR_HISTORY cid) = Inl (ConversationNotFoundError cid)"
    using assms by simp
  moreover have "reducer_on_heap env h st (UPDATE_CONVERSATION cid updates) = Some (Inl (ConversationNotFoundError cid), h) \<and>
            reducer_on_heap env h st (ADD_MESSAGE cid msg) = Some (Inl (ConversationNotFoundError cid), h) \<and>
            reducer_on_heap env h st (SET_METADATA cid md) = Some (Inl (ConversationNotFoundError cid), h) \<and>
            reducer_on_heap env h st (ADD_PROVIDER cid providerId) = Some (Inl (ConversationNotFoundError cid), h) \<and>
            reducer_on_heap env h st (REMOVE_PROVIDER cid providerId) = Some (Inl (ConversationNotFoundError cid), h) \<and>
            reducer_on_heap env h st (CLEAR_HISTORY cid) = Some (Inl (ConversationNotFoundError cid), h)"
    if "state_at h st = Some state" for h st
    using that assms by (rule not_found_on_heap)
  ultimately show ?thesis by blast
qed

lemma heap0_no_c1: "two_conversations ''c1'' = None"
  by (simp add: two_conversations_def)

theorem conversationReducer_not_found_witness:
  "two_conversations ''c1'' = None \<and>
   state_at heap0 0 = Some two_conversations \<and>
   conversationReducer sample_env two_conversations (UPDATE_CONVERSATION ''c1'' no_updates) = Inl (ConversationNotFoundError ''c1'') \<and>
   conversationReducer sample_env two_conversations (ADD_MESSAGE ''c1'' hi_message) = Inl (ConversationNotFoundError ''c1'') \<and>
   conversationReducer sample_env two_conversations (SET_METADATA ''c1'' no_metadata) = Inl (ConversationNotFoundError ''c1'') \<and>
   conversationReducer sample_env two_conversations (ADD_PROVIDER ''c1'' ''openai'') = Inl (ConversationNotFoundError ''c1'') \<and>
   conversationReducer sample_env two_conversations (REMOVE_PROVIDER ''c1'' ''openai'') = Inl (ConversationNotFoundError ''c1'') \<and>
   conversationReducer sample_env two_conversations (CLEAR_HISTORY ''c1'') = Inl (ConversationNotFoundError ''c1'') \<and>
   reducer_on_heap sample_env heap0 0 (ADD_MESSAGE ''c1'' hi_message) = Some (Inl (ConversationNotFoundError ''c1''), heap0) \<and>
   reducer_on_heap sample_env heap0 0 (CLEAR_HISTORY ''c1'') = Some (Inl (ConversationNotFoundError ''c1''), heap0)"
  using conversationReducer_not_found
    [where state = two_conversations and cid = "''c1''" and env = sample_env
       and updates = no_updates and msg = hi_message and md = no_metadata
       and providerId = "''openai''"]
    heap0_store heap0_no_c1
  by simp

end
